theory Spec2Isabelle
  imports Main "HOL-Library.Word"
begin

unbundle bit_operations_syntax

section \<open>Machine types, error numbers and flag bits\<close>

text \<open>
  The target is a 32-bit ARM kernel: \<open>int\<close>, \<open>unsigned int\<close>, \<open>unsigned long\<close>
  and \<open>size_t\<close> are 32 bits wide. A C \<open>int\<close> is kept as a 32-bit word and read
  as two's complement where the code compares it with zero (\<open><s\<close>). \<open>sector_t\<close>
  is taken as 64 bits wide, the width the code itself casts it to in the benbi generator.
\<close>

type_synonym u8 = "8 word"
type_synonym u32 = "32 word"
type_synonym u64 = "64 word"
type_synonym c_int = "32 word"
type_synonym ulong = "32 word"
type_synonym sector_t = "64 word"

definition EPERM :: c_int where "EPERM = 1"
definition EIO :: c_int where "EIO = 5"
definition EAGAIN :: c_int where "EAGAIN = 11"
definition ENOMEM :: c_int where "ENOMEM = 12"
definition EINVAL :: c_int where "EINVAL = 22"

text \<open>\<open>enum flags { DM_CRYPT_SUSPENDED, DM_CRYPT_KEY_VALID }\<close>: bit numbers 0 and 1.\<close>

definition DM_CRYPT_SUSPENDED :: nat where "DM_CRYPT_SUSPENDED = 0"
definition DM_CRYPT_KEY_VALID :: nat where "DM_CRYPT_KEY_VALID = 1"

text \<open>The kernel's bit operations on one \<open>unsigned long\<close>.\<close>

definition set_bit_ul :: "nat \<Rightarrow> ulong \<Rightarrow> ulong" where
  "set_bit_ul nr addr = addr OR push_bit nr 1"

definition clear_bit_ul :: "nat \<Rightarrow> ulong \<Rightarrow> ulong" where
  "clear_bit_ul nr addr = addr AND NOT (push_bit nr 1)"

definition test_bit_ul :: "nat \<Rightarrow> ulong \<Rightarrow> bool" where
  "test_bit_ul nr addr = (addr AND push_bit nr 1 \<noteq> 0)"

section \<open>The target configuration\<close>

datatype iv_ops = Plain_ops | Essiv_ops | Benbi_ops | Null_ops

datatype ocf_alg = CRYPTO_AES_CBC | CRYPTO_DES_CBC | CRYPTO_3DES_CBC

text \<open>
  \<open>struct crypt_config\<close>. The flexible array \<open>key[0]\<close> is the memory that follows the
  structure, read and written by index; \<open>key_alloc\<close> is the number of bytes that
  \<open>kzalloc\<close> reserved for it. The union \<open>iv_gen_private\<close> is kept as its two members
  (a target uses one IV mode, so only one of them is ever read); the single-block ESSIV
  cipher is the function \<open>crypto_cipher_encrypt_one\<close> applies. \<open>tfm\<close> is the
  synchronous transform, known by its block size and IV size; \<open>cri_alg\<close>, \<open>cri_klen\<close>
  and \<open>ocf_cryptoid\<close> are the OCF session of the other build (\<open>cri_key\<close> is \<open>key\<close>).
  The pools, the bio set and the device handle carry no data the code below computes with;
  the device is kept by name.
\<close>

record crypt_config =
  dev :: "string option"
  start :: sector_t
  iv_gen_ops :: "iv_ops option"
  iv_mode :: "string option"
  essiv_tfm :: "(u8 list \<Rightarrow> u8 list) option"
  benbi_shift :: c_int
  iv_offset :: sector_t
  iv_size :: u32
  cipher :: string
  chainmode :: string
  tfm :: "(u32 \<times> u32) option"
  cri_alg :: "ocf_alg option"
  cri_klen :: c_int
  ocf_cryptoid :: u64
  flags :: ulong
  key_size :: u32
  key_alloc :: nat
  key :: "nat \<Rightarrow> u8"

section \<open>Key handling\<close>

text \<open>
  Library routines of the kernel (\<open>lib/ctype.c\<close>, \<open>lib/string.c\<close>, \<open>lib/vsprintf.c\<close>),
  written out as this file's code relies on them. Characters are read as their codes; a C
  string is a \<open>string\<close> without the terminating NUL, and reading at its end yields 0.
\<close>

definition chr_code :: "char \<Rightarrow> nat" where
  "chr_code c = of_char c"

definition isupper_c :: "nat \<Rightarrow> bool" where
  "isupper_c c = ((65 \<le> c \<and> c \<le> 90) \<or> (192 \<le> c \<and> c \<le> 214) \<or> (216 \<le> c \<and> c \<le> 222))"

definition tolower_c :: "nat \<Rightarrow> nat" where
  "tolower_c c = (if isupper_c c then c + 32 else c)"

definition char_at :: "string \<Rightarrow> nat" where
  "char_at s = (case s of [] \<Rightarrow> 0 | c # _ \<Rightarrow> chr_code c)"

text \<open>\<open>strnicmp(s1, s2, len)\<close>: the do-while loop of \<open>lib/string.c\<close>.\<close>

fun strnicmp :: "string \<Rightarrow> string \<Rightarrow> nat \<Rightarrow> int" where
  "strnicmp s1 s2 0 = 0"
| "strnicmp s1 s2 (Suc n) =
     (if char_at s1 = 0 \<or> char_at s2 = 0 then int (char_at s1) - int (char_at s2)
      else if char_at s1 = char_at s2 then (if n = 0 then 0 else strnicmp (tl s1) (tl s2) n)
      else if tolower_c (char_at s1) \<noteq> tolower_c (char_at s2)
        then int (tolower_c (char_at s1)) - int (tolower_c (char_at s2))
      else (if n = 0 then 0 else strnicmp (tl s1) (tl s2) n))"

definition hex_digit :: "char \<Rightarrow> nat option" where
  "hex_digit c =
     (let n = chr_code c in
      if 48 \<le> n \<and> n \<le> 57 then Some (n - 48)
      else if 97 \<le> n \<and> n \<le> 102 then Some (n - 87)
      else if 65 \<le> n \<and> n \<le> 70 then Some (n - 55)
      else None)"

text \<open>The digits \<open>simple_strtoul\<close> consumes: the value so far and the number of characters.\<close>

fun parse_hex_digits :: "string \<Rightarrow> nat \<Rightarrow> nat \<Rightarrow> nat \<times> nat" where
  "parse_hex_digits [] acc k = (acc, k)"
| "parse_hex_digits (c # cs) acc k =
     (case hex_digit c of
        None \<Rightarrow> (acc, k)
      | Some v \<Rightarrow> parse_hex_digits cs (acc * 16 + v) (Suc k))"

text \<open>
  \<open>simple_strtoul(cp, &endp, 16)\<close>: a leading \<open>0x\<close> is skipped, then hexadecimal digits are
  read. The result is the value and the offset of \<open>endp\<close> from \<open>cp\<close>.
\<close>

definition simple_strtoul16 :: "string \<Rightarrow> nat \<times> nat" where
  "simple_strtoul16 cp =
     (case cp of
        c0 # c1 # rest \<Rightarrow>
          if c0 = CHR ''0'' \<and> tolower_c (chr_code c1) = chr_code CHR ''x''
          then (case parse_hex_digits rest 0 0 of (v, k) \<Rightarrow> (v, k + 2))
          else parse_hex_digits cp 0 0
      | _ \<Rightarrow> parse_hex_digits cp 0 0)"

text \<open>
  \<open>crypt_decode_key(key, hex, size)\<close>: the loop body runs \<open>size\<close> times, at index \<open>i\<close>,
  with \<open>hex\<close> the rest of the string. Two characters go to \<open>buffer\<close>, the byte is stored
  before the check of \<open>endp\<close>, and a string that goes on after \<open>size\<close> pairs is refused.
\<close>

fun crypt_decode_key_loop :: "(nat \<Rightarrow> u8) \<Rightarrow> string \<Rightarrow> nat \<Rightarrow> nat \<Rightarrow> c_int \<times> (nat \<Rightarrow> u8)" where
  "crypt_decode_key_loop k hex i 0 = (if hex \<noteq> [] then (- EINVAL, k) else (0, k))"
| "crypt_decode_key_loop k hex i (Suc n) =
     (case simple_strtoul16 (take 2 hex) of (v, endp) \<Rightarrow>
        (let k' = k(i := of_nat v) in
         if endp \<noteq> 2 then (- EINVAL, k')
         else crypt_decode_key_loop k' (drop 2 hex) (Suc i) n))"

definition crypt_decode_key :: "(nat \<Rightarrow> u8) \<Rightarrow> string \<Rightarrow> nat \<Rightarrow> c_int \<times> (nat \<Rightarrow> u8)" where
  "crypt_decode_key k hex sz = crypt_decode_key_loop k hex 0 sz"

text \<open>
  \<open>crypt_set_key\<close>. The stored size is overwritten before the key is decoded, and the
  decoder writes \<open>key_size\<close> bytes at \<open>cc->key\<close> whatever was reserved there.
\<close>

definition crypt_set_key :: "crypt_config \<Rightarrow> string \<Rightarrow> c_int \<times> crypt_config" where
  "crypt_set_key cc k =
     (let ksz = drop_bit 1 (word_of_nat (length k) :: u32) in
      if key_size cc \<noteq> 0 \<and> key_size cc \<noteq> ksz then (- EINVAL, cc)
      else
        (let cc1 = cc\<lparr>key_size := ksz\<rparr> in
         if ksz = 0 \<and> k \<noteq> ''-'' then (- EINVAL, cc1)
         else if ksz \<noteq> 0 then
           (case crypt_decode_key (key cc1) k (unat ksz) of (r, k') \<Rightarrow>
              if r <s 0 then (- EINVAL, cc1\<lparr>key := k'\<rparr>)
              else (0, cc1\<lparr>key := k', flags := set_bit_ul DM_CRYPT_KEY_VALID (flags cc1)\<rparr>))
         else (0, cc1\<lparr>flags := set_bit_ul DM_CRYPT_KEY_VALID (flags cc1)\<rparr>)))"

definition crypt_wipe_key :: "crypt_config \<Rightarrow> c_int \<times> crypt_config" where
  "crypt_wipe_key cc =
     (0, cc\<lparr>flags := clear_bit_ul DM_CRYPT_KEY_VALID (flags cc),
            key := (\<lambda>i. if i < unat (key_size cc) then 0 else key cc i)\<rparr>)"

section \<open>Suspend, resume and the message interface\<close>

definition crypt_postsuspend :: "crypt_config \<Rightarrow> crypt_config" where
  "crypt_postsuspend cc = cc\<lparr>flags := set_bit_ul DM_CRYPT_SUSPENDED (flags cc)\<rparr>"

definition crypt_preresume :: "crypt_config \<Rightarrow> c_int" where
  "crypt_preresume cc =
     (if \<not> test_bit_ul DM_CRYPT_KEY_VALID (flags cc) then - EAGAIN else 0)"

definition crypt_resume :: "crypt_config \<Rightarrow> crypt_config" where
  "crypt_resume cc = cc\<lparr>flags := clear_bit_ul DM_CRYPT_SUSPENDED (flags cc)\<rparr>"

text \<open>
  \<open>crypt_message(ti, argc, argv)\<close>, with \<open>argc\<close> the length of \<open>argv\<close>. \<open>MESG_STR(x)\<close>
  passes \<open>sizeof(x)\<close>, the length of the literal with its NUL, so the whole word is
  compared without regard to case.
\<close>

definition crypt_message :: "crypt_config \<Rightarrow> string list \<Rightarrow> c_int \<times> crypt_config" where
  "crypt_message cc argv =
     (if length argv < 2 then (- EINVAL, cc)
      else if strnicmp (argv ! 0) ''key'' 4 = 0 then
        (if \<not> test_bit_ul DM_CRYPT_SUSPENDED (flags cc) then (- EINVAL, cc)
         else if length argv = 3 \<and> strnicmp (argv ! 1) ''set'' 4 = 0
           then crypt_set_key cc (argv ! 2)
         else if length argv = 2 \<and> strnicmp (argv ! 1) ''wipe'' 5 = 0
           then crypt_wipe_key cc
         else (- EINVAL, cc))
      else (- EINVAL, cc))"

text \<open>A run of messages, each applied to the configuration the previous one left.\<close>

fun crypt_messages :: "crypt_config \<Rightarrow> string list list \<Rightarrow> crypt_config" where
  "crypt_messages cc [] = cc"
| "crypt_messages cc (argv # rest) = crypt_messages (snd (crypt_message cc argv)) rest"

text \<open>
  A well-formed hexadecimal key, as the interface describes it: a non-empty string of an
  even number of hexadecimal digits.
\<close>

definition well_formed_hex :: "string \<Rightarrow> bool" where
  "well_formed_hex k = (k \<noteq> [] \<and> even (length k) \<and> list_all (\<lambda>c. hex_digit c \<noteq> None) k)"

text \<open>
  The configuration \<open>kzalloc\<close> returns in \<open>crypt_ctr\<close>: every field zero, with room for
  \<open>n\<close> key bytes.
\<close>

definition kzalloc_config :: "nat \<Rightarrow> crypt_config" where
  "kzalloc_config n =
     \<lparr>dev = None, start = 0, iv_gen_ops = None, iv_mode = None, essiv_tfm = None,
      benbi_shift = 0, iv_offset = 0, iv_size = 0, cipher = [], chainmode = [],
      tfm = None, cri_alg = None, cri_klen = 0, ocf_cryptoid = 0, flags = 0, key_size = 0, key_alloc = n, key = (\<lambda>_. 0)\<rparr>"

section \<open>Bios and the per-request object\<close>

text \<open>
  \<open>struct bio_vec\<close> and \<open>struct bio\<close> come from the block layer; the fields this file
  reads are kept. A page is named by the address of its data. The segment vector with its
  count \<open>bi_vcnt\<close> is a list, so an index below \<open>bi_vcnt\<close> is always inside the vector.
  \<open>bi_id\<close> is the address of the descriptor, \<open>bi_bounced\<close> the flag \<open>BIO_BOUNCED\<close>,
  and \<open>bi_private\<close> of a bounced bio the address of the bio it stands for.
\<close>

record bio_vec =
  bv_page :: nat
  bv_len :: u32
  bv_offset :: u32

record bio =
  bi_id :: nat
  bi_sector :: sector_t
  bi_write :: bool
  bi_bounced :: bool
  bi_private :: nat
  bi_idx :: u32
  bi_size :: u32
  bi_io_vec :: "bio_vec list"

definition bi_vcnt :: "bio \<Rightarrow> u32" where
  "bi_vcnt b = word_of_nat (length (bi_io_vec b))"

text \<open>\<open>struct crypt_io\<close>; \<open>pending\<close> is the \<open>atomic_t\<close> counter.\<close>

record crypt_io =
  base_bio :: bio
  pending :: c_int
  error :: c_int
  post_process :: c_int

text \<open>
  \<open>dec_pending(io, error)\<close>. The result is either the object with the reference dropped,
  or the completion \<open>bio_endio(bio, io->error)\<close> of the request: the address of the bio
  that is completed and the error it is completed with, after which the object is back in
  its pool. With \<open>CONFIG_HIGHMEM\<close> (the first argument) a bounced bio is replaced by the
  bio it stands for; the copying and freeing of bounce pages moves no field kept here.
\<close>

datatype dec_result = Still_pending crypt_io | Completed nat c_int

definition endio_target :: "bool \<Rightarrow> bio \<Rightarrow> nat" where
  "endio_target highmem b = (if highmem \<and> bi_bounced b then bi_private b else bi_id b)"

definition dec_pending :: "bool \<Rightarrow> crypt_io \<Rightarrow> c_int \<Rightarrow> dec_result" where
  "dec_pending highmem io err =
     (let io1 = (if err <s 0 then io\<lparr>error := err\<rparr> else io);
          io2 = io1\<lparr>pending := pending io1 - 1\<rparr>
      in if pending io2 \<noteq> 0 then Still_pending io2
         else Completed (endio_target highmem (base_bio io2)) (error io2))"

text \<open>
  A sequence of calls on one object, in the order they run: the result of the last call
  made and the calls that were not made because the request had completed.
\<close>

fun dec_pending_calls :: "bool \<Rightarrow> crypt_io \<Rightarrow> c_int list \<Rightarrow> dec_result \<times> c_int list" where
  "dec_pending_calls highmem io [] = (Still_pending io, [])"
| "dec_pending_calls highmem io (e # es) =
     (case dec_pending highmem io e of
        Still_pending io' \<Rightarrow> dec_pending_calls highmem io' es
      | Completed b r \<Rightarrow> (Completed b r, es))"

text \<open>
  The two readings of "the latched error" of a sequence of calls, starting from the
  error \<open>e0\<close> the object holds: the first failure passed, and the last one.
\<close>

definition first_failure :: "c_int \<Rightarrow> c_int list \<Rightarrow> c_int" where
  "first_failure e0 errs = (case filter (\<lambda>e. e <s 0) errs of [] \<Rightarrow> e0 | e # _ \<Rightarrow> e)"

definition last_failure :: "c_int \<Rightarrow> c_int list \<Rightarrow> c_int" where
  "last_failure e0 errs = (case filter (\<lambda>e. e <s 0) errs of [] \<Rightarrow> e0 | e # es \<Rightarrow> last (e # es))"

text \<open>The object \<open>crypt_map\<close> creates for a bio, with \<open>n\<close> references taken on it.\<close>

definition new_io :: "bio \<Rightarrow> c_int \<Rightarrow> crypt_io" where
  "new_io b n = \<lparr>base_bio = b, pending = n, error = 0, post_process = 0\<rparr>"

definition example_bio :: bio where
  "example_bio = \<lparr>bi_id = 7, bi_sector = 8, bi_write = True, bi_bounced = False,
     bi_private = 0, bi_idx = 0, bi_size = 1024,
     bi_io_vec = [\<lparr>bv_page = 4096, bv_len = 1024, bv_offset = 0\<rparr>]\<rparr>"

section \<open>IV generators\<close>

text \<open>
  \<open>ilog2\<close> of a 32-bit value is \<open>fls(n) - 1\<close> (\<open>linux/log2.h\<close>), with \<open>fls\<close> the
  position of the highest set bit counted from 1, and \<open>fls(0) = 0\<close>.
\<close>

fun fls_nat :: "nat \<Rightarrow> nat" where
  "fls_nat n = (if n = 0 then 0 else Suc (fls_nat (n div 2)))"

declare fls_nat.simps [simp del]

definition ilog2 :: "u32 \<Rightarrow> int" where
  "ilog2 n = int (fls_nat (unat n)) - 1"

text \<open>
  \<open>crypt_iv_benbi_ctr\<close>, given the block size \<open>crypto_blkcipher_blocksize(cc->tfm)\<close>. The
  result is the return value, the message left in \<open>ti->error\<close> and the configuration. For
  a block size of 0 the code shifts by \<open>-1\<close>, which C leaves undefined: the model has no
  result there.
\<close>

definition crypt_iv_benbi_ctr :: "crypt_config \<Rightarrow> u32 \<Rightarrow> (c_int \<times> string option \<times> crypt_config) option" where
  "crypt_iv_benbi_ctr cc bs =
     (let log = ilog2 bs in
      if log < 0 then None
      else if push_bit (nat log) (1 :: u32) \<noteq> bs
        then Some (- EINVAL, Some ''cypher blocksize is not a power of 2'', cc)
      else if log > 9
        then Some (- EINVAL, Some ''cypher blocksize is > 512'', cc)
      else Some (0, None, cc\<lparr>benbi_shift := 9 - word_of_int log\<rparr>))"

text \<open>
  Writes into the IV buffer, a list of \<open>iv_size\<close> bytes. \<open>memset_buf\<close> fills the first
  \<open>n\<close> bytes, \<open>put_bytes\<close> stores bytes from an offset on; both stay inside the buffer.
\<close>

definition memset_buf :: "u8 list \<Rightarrow> u8 \<Rightarrow> nat \<Rightarrow> u8 list" where
  "memset_buf buf c n = replicate (min n (length buf)) c @ drop n buf"

definition put_bytes :: "u8 list \<Rightarrow> nat \<Rightarrow> u8 list \<Rightarrow> u8 list" where
  "put_bytes buf off bs = take off buf @ take (length buf - off) bs @ drop (off + length bs) buf"

text \<open>The byte images \<open>cpu_to_be64\<close>, \<open>cpu_to_le64\<close> and \<open>cpu_to_le32\<close> leave in memory.\<close>

definition be64_bytes :: "u64 \<Rightarrow> u8 list" where
  "be64_bytes v = map (\<lambda>k. ucast (drop_bit (8 * (7 - k)) v)) [0..<8]"

definition le64_bytes :: "u64 \<Rightarrow> u8 list" where
  "le64_bytes v = map (\<lambda>k. ucast (drop_bit (8 * k) v)) [0..<8]"

definition le32_bytes :: "u32 \<Rightarrow> u8 list" where
  "le32_bytes v = map (\<lambda>k. ucast (drop_bit (8 * k) v)) [0..<4]"

text \<open>The number a run of bytes denotes when read most significant byte first.\<close>

definition be_value :: "u8 list \<Rightarrow> u64" where
  "be_value bs = foldl (\<lambda>acc b. push_bit 8 acc OR ucast b) 0 bs"

text \<open>
  The generators. Each takes the IV buffer as the caller's stack holds it and returns the
  return value with the buffer it leaves. A generator has no result where the C is
  undefined: a buffer too short for the store it makes, or (benbi) a shift count outside
  the width of the sector.
\<close>

definition crypt_iv_plain_gen :: "crypt_config \<Rightarrow> u8 list \<Rightarrow> sector_t \<Rightarrow> (c_int \<times> u8 list) option" where
  "crypt_iv_plain_gen cc iv sector =
     (if unat (iv_size cc) < 4 \<or> length iv \<noteq> unat (iv_size cc) then None
      else Some (0, put_bytes (memset_buf iv 0 (unat (iv_size cc))) 0
                      (le32_bytes (ucast (sector AND 0xffffffff)))))"

definition crypt_iv_essiv_gen :: "crypt_config \<Rightarrow> u8 list \<Rightarrow> sector_t \<Rightarrow> (c_int \<times> u8 list) option" where
  "crypt_iv_essiv_gen cc iv sector =
     (case essiv_tfm cc of
        None \<Rightarrow> None
      | Some encrypt_one \<Rightarrow>
          if unat (iv_size cc) < 8 \<or> length iv \<noteq> unat (iv_size cc) then None
          else Some (0, encrypt_one (put_bytes (memset_buf iv 0 (unat (iv_size cc))) 0
                                       (le64_bytes sector))))"

definition crypt_iv_benbi_gen :: "crypt_config \<Rightarrow> u8 list \<Rightarrow> sector_t \<Rightarrow> (c_int \<times> u8 list) option" where
  "crypt_iv_benbi_gen cc iv sector =
     (if unat (iv_size cc) < 8 \<or> length iv \<noteq> unat (iv_size cc)
         \<or> sint (benbi_shift cc) < 0 \<or> 64 \<le> sint (benbi_shift cc) then None
      else
        (let iv1 = memset_buf iv 0 (unat (iv_size cc - 8));
             val = push_bit (nat (sint (benbi_shift cc))) sector + 1
         in Some (0, put_bytes iv1 (unat (iv_size cc) - 8) (be64_bytes val))))"

definition crypt_iv_null_gen :: "crypt_config \<Rightarrow> u8 list \<Rightarrow> sector_t \<Rightarrow> (c_int \<times> u8 list) option" where
  "crypt_iv_null_gen cc iv sector =
     (if length iv \<noteq> unat (iv_size cc) then None
      else Some (0, memset_buf iv 0 (unat (iv_size cc))))"

text \<open>The call \<open>cc->iv_gen_ops->generator(cc, iv, sector)\<close> through the table of operations.\<close>

fun generator :: "iv_ops \<Rightarrow> crypt_config \<Rightarrow> u8 list \<Rightarrow> sector_t \<Rightarrow> (c_int \<times> u8 list) option" where
  "generator Plain_ops = crypt_iv_plain_gen"
| "generator Essiv_ops = crypt_iv_essiv_gen"
| "generator Benbi_ops = crypt_iv_benbi_gen"
| "generator Null_ops = crypt_iv_null_gen"

section \<open>The conversion context\<close>

text \<open>
  \<open>struct scatterlist\<close> with one entry, and \<open>sg_virt\<close>, the address of its data (the
  page is named by the address of its data).
\<close>

record scatterlist =
  sg_page :: nat
  sg_offset :: u32
  sg_length :: u32

definition sg_virt :: "scatterlist \<Rightarrow> nat" where
  "sg_virt sg = sg_page sg + unat (sg_offset sg)"

definition SECTOR_SHIFT :: nat where "SECTOR_SHIFT = 9"

text \<open>
  \<open>struct convert_context\<close>; a bio pointer may be \<open>NULL\<close>. The field \<open>write\<close> is
  \<open>ctx_write\<close> here.
\<close>

record convert_context =
  bio_in :: "bio option"
  bio_out :: "bio option"
  offset_in :: u32
  offset_out :: u32
  idx_in :: u32
  idx_out :: u32
  sector :: sector_t
  ctx_write :: c_int

definition crypt_convert_init ::
  "crypt_config \<Rightarrow> bio option \<Rightarrow> bio option \<Rightarrow> sector_t \<Rightarrow> c_int \<Rightarrow> convert_context" where
  "crypt_convert_init cc b_out b_in sec wr =
     \<lparr>bio_in = b_in, bio_out = b_out, offset_in = 0, offset_out = 0,
      idx_in = (case b_in of Some b \<Rightarrow> bi_idx b | None \<Rightarrow> 0),
      idx_out = (case b_out of Some b \<Rightarrow> bi_idx b | None \<Rightarrow> 0),
      sector = sec + iv_offset cc, ctx_write = wr\<rparr>"

text \<open>The loop condition of both conversion loops.\<close>

definition segments_left :: "bio \<Rightarrow> bio \<Rightarrow> convert_context \<Rightarrow> bool" where
  "segments_left bi bo ctx = (idx_in ctx < bi_vcnt bi \<and> idx_out ctx < bi_vcnt bo)"

text \<open>
  The head of the loop body, the same text in both loops: the two scatterlist entries of
  one sector at the cursors, then the cursors moved on by the length of the entry. The
  result is \<open>(sg_out, sg_in, ctx)\<close>.
\<close>

definition sector_step :: "bio \<Rightarrow> bio \<Rightarrow> convert_context \<Rightarrow> scatterlist \<times> scatterlist \<times> convert_context" where
  "sector_step bi bo ctx =
     (let bv_in = bi_io_vec bi ! unat (idx_in ctx);
          bv_out = bi_io_vec bo ! unat (idx_out ctx);
          sg_in = \<lparr>sg_page = bv_page bv_in, sg_offset = bv_offset bv_in + offset_in ctx,
                   sg_length = push_bit SECTOR_SHIFT 1\<rparr>;
          sg_out = \<lparr>sg_page = bv_page bv_out, sg_offset = bv_offset bv_out + offset_out ctx,
                    sg_length = push_bit SECTOR_SHIFT 1\<rparr>;
          ctx1 = ctx\<lparr>offset_in := offset_in ctx + sg_length sg_in\<rparr>;
          ctx2 = (if offset_in ctx1 \<ge> bv_len bv_in
                  then ctx1\<lparr>offset_in := 0, idx_in := idx_in ctx1 + 1\<rparr> else ctx1);
          ctx3 = ctx2\<lparr>offset_out := offset_out ctx2 + sg_length sg_out\<rparr>;
          ctx4 = (if offset_out ctx3 \<ge> bv_len bv_out
                  then ctx3\<lparr>offset_out := 0, idx_out := idx_out ctx3 + 1\<rparr> else ctx3)
      in (sg_out, sg_in, ctx4))"

text \<open>
  A result of C code that may be undefined: a \<open>NULL\<close> bio dereferenced, or an IV generator
  run outside its buffer.
\<close>

datatype 'a c_result = Undefined | Returns 'a

section \<open>The synchronous cipher\<close>

text \<open>
  One call of the block cipher API, \<open>crypto_blkcipher_encrypt_iv\<close> and its three
  siblings: the direction, the IV in the descriptor (none for the calls without IV), the
  two scatterlist entries and the length. \<open>call_sector\<close> is the sector argument of
  \<open>crypt_convert_scatterlist\<close>, from which the IV was generated. The cipher itself is
  outside this file: \<open>blkcipher\<close> is its return value, and the bytes it moves are not
  followed. \<open>stack_bytes\<close> is what the uninitialised array \<open>iv\<close> holds on entry.
\<close>

record cipher_call =
  call_write :: bool
  call_iv :: "u8 list option"
  call_out :: scatterlist
  call_in :: scatterlist
  call_len :: u32
  call_sector :: sector_t

record sync_env =
  blkcipher :: "cipher_call \<Rightarrow> c_int"
  stack_bytes :: "nat \<Rightarrow> u8"

definition stack_iv :: "(nat \<Rightarrow> u8) \<Rightarrow> crypt_config \<Rightarrow> u8 list" where
  "stack_iv st cc = map st [0..<unat (iv_size cc)]"

definition crypt_convert_scatterlist ::
  "sync_env \<Rightarrow> crypt_config \<Rightarrow> scatterlist \<Rightarrow> scatterlist \<Rightarrow> u32 \<Rightarrow> c_int \<Rightarrow> sector_t
    \<Rightarrow> (c_int \<times> cipher_call list) c_result" where
  "crypt_convert_scatterlist env cc out inp len wr sec =
     (case iv_gen_ops cc of
        Some ops \<Rightarrow>
          (case generator ops cc (stack_iv (stack_bytes env) cc) sec of
             None \<Rightarrow> Undefined
           | Some (r, iv) \<Rightarrow>
               if r <s 0 then Returns (r, [])
               else
                 (let call = \<lparr>call_write = (wr \<noteq> 0), call_iv = Some iv, call_out = out,
                              call_in = inp, call_len = len, call_sector = sec\<rparr>
                  in Returns (blkcipher env call, [call])))
      | None \<Rightarrow>
          (let call = \<lparr>call_write = (wr \<noteq> 0), call_iv = None, call_out = out,
                       call_in = inp, call_len = len, call_sector = sec\<rparr>
           in Returns (blkcipher env call, [call])))"

text \<open>
  \<open>crypt_convert\<close>: the loop carries \<open>r\<close>, the context and the cipher calls made so far.
  A loop that does not end has no value (\<open>None\<close>).
\<close>

partial_function (option) crypt_convert_loop ::
  "sync_env \<Rightarrow> crypt_config \<Rightarrow> c_int \<Rightarrow> convert_context \<Rightarrow> cipher_call list
    \<Rightarrow> (c_int \<times> convert_context \<times> cipher_call list) c_result option" where
  "crypt_convert_loop env cc r ctx tr =
     (case bio_in ctx of
        None \<Rightarrow> Some Undefined
      | Some bi \<Rightarrow>
         (case bio_out ctx of
            None \<Rightarrow> Some Undefined
          | Some bo \<Rightarrow>
              if segments_left bi bo ctx then
                (case sector_step bi bo ctx of (sg_out, sg_in, ctx1) \<Rightarrow>
                   (case crypt_convert_scatterlist env cc sg_out sg_in (sg_length sg_in)
                           (ctx_write ctx1) (sector ctx1) of
                      Undefined \<Rightarrow> Some Undefined
                    | Returns (r1, calls) \<Rightarrow>
                        if r1 <s 0 then Some (Returns (r1, ctx1, tr @ calls))
                        else crypt_convert_loop env cc r1
                               (ctx1\<lparr>sector := sector ctx1 + 1\<rparr>) (tr @ calls)))
              else Some (Returns (r, ctx, tr))))"

declare crypt_convert_loop.simps [code]

definition crypt_convert ::
  "sync_env \<Rightarrow> crypt_config \<Rightarrow> convert_context
    \<Rightarrow> (c_int \<times> convert_context \<times> cipher_call list) c_result option" where
  "crypt_convert env cc ctx = crypt_convert_loop env cc 0 ctx []"

text \<open>
  What the conversion loops need of their input. A bio is well formed when each segment
  is short enough for a cursor to move one sector past its start without wrapping, as
  every segment inside a page is. A target's IV set-up is well formed when the buffer has
  room for the store its generator makes; \<open>crypt_ctr\<close> builds no other. \<open>cursors_ok\<close>
  holds of a context whose offsets can move on by one sector, as after
  \<open>crypt_convert_init\<close>.
\<close>

definition segs_ok :: "bio \<Rightarrow> bool" where
  "segs_ok b = list_all (\<lambda>bv. unat (bv_len bv) + 512 \<le> 2 ^ 32) (bi_io_vec b)"

definition cursors_ok :: "convert_context \<Rightarrow> bool" where
  "cursors_ok ctx = (unat (offset_in ctx) + 512 < 2 ^ 32 \<and> unat (offset_out ctx) + 512 < 2 ^ 32)"

fun iv_buffer_ok :: "crypt_config \<Rightarrow> iv_ops option \<Rightarrow> bool" where
  "iv_buffer_ok cc None = True"
| "iv_buffer_ok cc (Some Plain_ops) = (4 \<le> unat (iv_size cc))"
| "iv_buffer_ok cc (Some Essiv_ops) = (essiv_tfm cc \<noteq> None \<and> 8 \<le> unat (iv_size cc))"
| "iv_buffer_ok cc (Some Benbi_ops) =
     (8 \<le> unat (iv_size cc) \<and> 0 \<le> sint (benbi_shift cc) \<and> sint (benbi_shift cc) < 64)"
| "iv_buffer_ok cc (Some Null_ops) = True"

text \<open>
  The IV of one sector: what the target's generator leaves in the buffer for that sector,
  and none for a target without generator.
\<close>

definition fresh_iv :: "sync_env \<Rightarrow> crypt_config \<Rightarrow> sector_t \<Rightarrow> u8 list option" where
  "fresh_iv env cc sec =
     (case iv_gen_ops cc of
        None \<Rightarrow> None
      | Some ops \<Rightarrow> map_option snd (generator ops cc (stack_iv (stack_bytes env) cc) sec))"

text \<open>
  The distance of the source cursor from the end of its bio: the segments left, then the
  bytes the offset can still grow by. Each turn of a conversion loop makes it smaller.
\<close>

definition cursor_measure :: "bio \<Rightarrow> convert_context \<Rightarrow> nat" where
  "cursor_measure bi ctx =
     (length (bi_io_vec bi) - unat (idx_in ctx)) * 2 ^ 32 + (2 ^ 32 - unat (offset_in ctx))"


text \<open>
  The calls a conversion makes when it works through consecutive sectors from \<open>s\<close> on:
  call number \<open>k\<close> is for sector \<open>s + k\<close>, on one sector (512 bytes) of source and of
  destination, in the direction of the context, with the IV of that sector; and every
  call but the last one succeeded.
\<close>

definition sector_chunks :: "sync_env \<Rightarrow> crypt_config \<Rightarrow> c_int \<Rightarrow> sector_t \<Rightarrow> cipher_call list \<Rightarrow> bool" where
  "sector_chunks env cc wr s tr =
     list_all (\<lambda>k. call_sector (tr ! k) = s + word_of_nat k
                  \<and> call_len (tr ! k) = 512
                  \<and> sg_length (call_in (tr ! k)) = 512
                  \<and> sg_length (call_out (tr ! k)) = 512
                  \<and> call_iv (tr ! k) = fresh_iv env cc (s + word_of_nat k)
                  \<and> call_write (tr ! k) = (wr \<noteq> 0)
                  \<and> (Suc k < length tr \<longrightarrow> \<not> blkcipher env (tr ! k) <s 0))
       [0..<length tr]"

text \<open>The value of a result that is defined.\<close>

fun result_of :: "'a c_result \<Rightarrow> 'a option" where
  "result_of Undefined = None"
| "result_of (Returns x) = Some x"

text \<open>
  Two targets and a cipher for the examples: \<open>aes-cbc-plain\<close> with 16-byte IVs,
  \<open>aes-ecb\<close> without IV generator, both with IV offset 100, and a cipher that fails with
  \<open>-EIO\<close> at sector 109 only.
\<close>

definition example_plain_config :: crypt_config where
  "example_plain_config = (kzalloc_config 16)
     \<lparr>cipher := ''aes'', chainmode := ''cbc'', iv_gen_ops := Some Plain_ops,
      iv_mode := Some ''plain'', iv_size := 16, iv_offset := 100\<rparr>"

definition example_ecb_config :: crypt_config where
  "example_ecb_config = (kzalloc_config 16)
     \<lparr>cipher := ''aes'', chainmode := ''ecb'', iv_gen_ops := None,
      iv_mode := None, iv_size := 0, iv_offset := 100\<rparr>"

definition example_sync_env :: sync_env where
  "example_sync_env =
     \<lparr>blkcipher = (\<lambda>c. if call_sector c = 109 then - EIO else 0), stack_bytes = (\<lambda>_. 0xAA)\<rparr>"

section \<open>The OCF backend\<close>

text \<open>
  Memory is a map from addresses to bytes. \<open>memcpy\<close> reads the source as it was before
  the copy.
\<close>

type_synonym memory = "nat \<Rightarrow> u8"

definition memcpy :: "memory \<Rightarrow> nat \<Rightarrow> nat \<Rightarrow> nat \<Rightarrow> memory" where
  "memcpy m dst src n = (\<lambda>a. if dst \<le> a \<and> a < dst + n then m (src + (a - dst)) else m a)"

definition mem_read :: "memory \<Rightarrow> nat \<Rightarrow> nat \<Rightarrow> u8 list" where
  "mem_read m a n = map m [a..<a + n]"

text \<open>
  An OCF request, \<open>struct cryptop\<close> with its one descriptor: the flag words are sets of
  flags, the callback is one of the two of this file, and \<open>crp_opaque\<close> is \<open>NULL\<close>, the
  \<open>ocf_wr_priv\<close> of the running conversion or the \<open>crypt_io\<close>. \<open>crd_key\<close> points
  at the key of the configuration.
\<close>

datatype crd_flag = CRD_F_ENCRYPT | CRD_F_IV_EXPLICIT | CRD_F_IV_PRESENT
datatype crp_flag = CRYPTO_F_CBIMM | CRYPTO_F_BATCH
datatype ocf_callback = Dm_ocf_wr_cb | Dm_ocf_rd_cb
datatype opaque = Opaque_null | Opaque_wr_priv | Opaque_io

record cryptop =
  crd_flags :: "crd_flag set"
  crd_alg :: "ocf_alg option"
  crd_skip :: c_int
  crd_len :: u32
  crd_inject :: c_int
  crd_klen :: c_int
  crd_iv :: "u8 list"
  crp_ilen :: u32
  crp_flags :: "crp_flag set"
  crp_buf :: nat
  crp_opaque :: opaque
  crp_callback :: ocf_callback
  crp_sid :: u64

text \<open>
  What the OCF code changes: memory, the counter \<open>_crypt_requests\<close>, the number of
  calls of \<open>crypto_getreq\<close> so far and the requests \<open>crypto_dispatch\<close> has accepted, in
  order. What it depends on: whether the n-th \<open>crypto_getreq\<close> succeeds, whether the
  \<open>kmalloc\<close> of the \<open>ocf_wr_priv\<close> succeeds, the value \<open>dm_ocf_wr_completed\<close> has
  when \<open>wait_event_timeout\<close> returns (the callbacks run on their own), and the bytes
  of the uninitialised IV array. The engine is taken to accept each request in the end:
  the retries of \<open>crypto_dispatch\<close> and the callbacks' decrements of \<open>_crypt_requests\<close>
  are not followed.
\<close>

record ocf_state =
  mem :: memory
  crypt_requests :: u32
  getreq_calls :: nat
  dispatched :: "cryptop list"

record ocf_env =
  getreq_ok :: "nat \<Rightarrow> bool"
  wr_priv_alloc_ok :: bool
  wr_completed :: u32
  ocf_stack_bytes :: "nat \<Rightarrow> u8"

definition dm_ocf_process ::
  "ocf_env \<Rightarrow> crypt_config \<Rightarrow> ocf_state \<Rightarrow> scatterlist \<Rightarrow> scatterlist \<Rightarrow> u32
    \<Rightarrow> u8 list option \<Rightarrow> c_int \<Rightarrow> c_int \<Rightarrow> opaque \<Rightarrow> c_int \<times> ocf_state" where
  "dm_ocf_process env cc st out inp len iv iv_sz wr priv =
     (case iv of
        None \<Rightarrow> (- EPERM, st)
      | Some ivb \<Rightarrow>
          if \<not> getreq_ok env (getreq_calls st)
          then (- ENOMEM, st\<lparr>getreq_calls := Suc (getreq_calls st)\<rparr>)
          else
            (let crp = \<lparr>crd_flags = (if wr \<noteq> 0 then {CRD_F_ENCRYPT} else {})
                                     \<union> {CRD_F_IV_EXPLICIT, CRD_F_IV_PRESENT},
                        crd_alg = cri_alg cc, crd_skip = 0, crd_len = len, crd_inject = 0,
                        crd_klen = cri_klen cc, crd_iv = take (unat iv_sz) ivb,
                        crp_ilen = len, crp_flags = {CRYPTO_F_CBIMM, CRYPTO_F_BATCH},
                        crp_buf = sg_virt out, crp_opaque = priv,
                        crp_callback = (if wr \<noteq> 0 then Dm_ocf_wr_cb else Dm_ocf_rd_cb),
                        crp_sid = ocf_cryptoid cc\<rparr>;
                 m = (if sg_virt out \<noteq> sg_virt inp
                      then memcpy (mem st) (sg_virt out) (sg_virt inp) (unat len)
                      else mem st)
             in (0, st\<lparr>mem := m, crypt_requests := crypt_requests st + 1,
                       getreq_calls := Suc (getreq_calls st),
                       dispatched := dispatched st @ [crp]\<rparr>)))"

definition ocf_crypt_convert_scatterlist ::
  "ocf_env \<Rightarrow> crypt_config \<Rightarrow> ocf_state \<Rightarrow> scatterlist \<Rightarrow> scatterlist \<Rightarrow> u32
    \<Rightarrow> c_int \<Rightarrow> sector_t \<Rightarrow> opaque \<Rightarrow> (c_int \<times> ocf_state) c_result" where
  "ocf_crypt_convert_scatterlist env cc st out inp len wr sec priv =
     (case iv_gen_ops cc of
        Some ops \<Rightarrow>
          (case generator ops cc (stack_iv (ocf_stack_bytes env) cc) sec of
             None \<Rightarrow> Undefined
           | Some (r, iv) \<Rightarrow>
               if r <s 0 then Returns (r, st)
               else Returns (dm_ocf_process env cc st out inp len (Some iv) (iv_size cc) wr priv))
      | None \<Rightarrow> Returns (dm_ocf_process env cc st out inp len None 0 wr priv))"

text \<open>
  The rest of the loop body of \<open>ocf_crypt_convert\<close>, after the cursors have moved: the
  count of writes, the completion token of the last read, and the submission. The result
  is \<open>(r, num, priv, state)\<close>.
\<close>

definition ocf_submit ::
  "ocf_env \<Rightarrow> crypt_config \<Rightarrow> ocf_state \<Rightarrow> bio \<Rightarrow> bio \<Rightarrow> convert_context \<Rightarrow> c_int \<Rightarrow> opaque
    \<Rightarrow> scatterlist \<Rightarrow> scatterlist \<Rightarrow> (c_int \<times> c_int \<times> opaque \<times> ocf_state) c_result" where
  "ocf_submit env cc st bi bo ctx num priv sg_out sg_in =
     (let num1 = (if ctx_write ctx \<noteq> 0 then num + 1 else num);
          priv1 = (if ctx_write ctx \<noteq> 0 then priv
                   else if \<not> segments_left bi bo ctx then Opaque_io else priv)
      in case ocf_crypt_convert_scatterlist env cc st sg_out sg_in (sg_length sg_in)
                (ctx_write ctx) (sector ctx) priv1 of
           Undefined \<Rightarrow> Undefined
         | Returns (r, st1) \<Rightarrow> Returns (r, num1, priv1, st1))"

partial_function (option) ocf_convert_loop ::
  "ocf_env \<Rightarrow> crypt_config \<Rightarrow> c_int \<Rightarrow> c_int \<Rightarrow> opaque \<Rightarrow> convert_context \<Rightarrow> ocf_state
    \<Rightarrow> (c_int \<times> c_int \<times> convert_context \<times> ocf_state) c_result option" where
  "ocf_convert_loop env cc r num priv ctx st =
     (case bio_in ctx of
        None \<Rightarrow> Some Undefined
      | Some bi \<Rightarrow>
         (case bio_out ctx of
            None \<Rightarrow> Some Undefined
          | Some bo \<Rightarrow>
              if segments_left bi bo ctx then
                (case sector_step bi bo ctx of (sg_out, sg_in, ctx1) \<Rightarrow>
                   (case ocf_submit env cc st bi bo ctx1 num priv sg_out sg_in of
                      Undefined \<Rightarrow> Some Undefined
                    | Returns (r1, num1, priv1, st1) \<Rightarrow>
                        if r1 <s 0 then Some (Returns (r1, num1, ctx1, st1))
                        else ocf_convert_loop env cc r1 num1 priv1
                               (ctx1\<lparr>sector := sector ctx1 + 1\<rparr>) st1))
              else Some (Returns (r, num, ctx, st))))"

declare ocf_convert_loop.simps [code]

text \<open>
  \<open>ocf_crypt_convert\<close>. The result is the return value, the context, the state and
  whether the message of the timeout was logged: \<open>wait_event_timeout\<close> returns 0 when
  \<open>dm_ocf_wr_pending\<close> still differs from \<open>dm_ocf_wr_completed\<close> after 30000 ms.
\<close>

definition ocf_crypt_convert ::
  "ocf_env \<Rightarrow> crypt_config \<Rightarrow> ocf_state \<Rightarrow> convert_context
    \<Rightarrow> (c_int \<times> convert_context \<times> ocf_state \<times> bool) c_result option" where
  "ocf_crypt_convert env cc st ctx =
     (if ctx_write ctx \<noteq> 0 \<and> \<not> wr_priv_alloc_ok env
      then Some (Returns (- ENOMEM, ctx, st, False))
      else
        (case ocf_convert_loop env cc 0 0
                (if ctx_write ctx \<noteq> 0 then Opaque_wr_priv else Opaque_null) ctx st of
           None \<Rightarrow> None
         | Some Undefined \<Rightarrow> Some Undefined
         | Some (Returns (r, num, ctx1, st1)) \<Rightarrow>
             if ctx_write ctx1 \<noteq> 0
             then Some (Returns (r, ctx1, st1, (0 + num) \<noteq> wr_completed env))
             else Some (Returns (r, ctx1, st1, False))))"

text \<open>
  An OCF target (\<open>aes-cbc-null\<close>, 16-byte IVs), a memory in which each byte holds the
  number of its sector, and an engine that finds room for every request and has completed
  \<open>c\<close> writes when the wait ends.
\<close>

definition example_ocf_config :: crypt_config where
  "example_ocf_config = (kzalloc_config 16)
     \<lparr>cipher := ''aes'', chainmode := ''cbc'', iv_gen_ops := Some Null_ops,
      iv_mode := Some ''null'', iv_size := 16, cri_alg := Some CRYPTO_AES_CBC,
      cri_klen := 128, ocf_cryptoid := 1\<rparr>"

definition example_ocf_state :: ocf_state where
  "example_ocf_state =
     \<lparr>mem = (\<lambda>a. word_of_nat (a div 512)), crypt_requests = 0, getreq_calls = 0, dispatched = []\<rparr>"

definition example_ocf_env :: "u32 \<Rightarrow> ocf_env" where
  "example_ocf_env c =
     \<lparr>getreq_ok = (\<lambda>_. True), wr_priv_alloc_ok = True, wr_completed = c,
      ocf_stack_bytes = (\<lambda>_. 0xAA)\<rparr>"

definition example_clone :: bio where
  "example_clone = \<lparr>bi_id = 9, bi_sector = 0, bi_write = True, bi_bounced = False,
     bi_private = 0, bi_idx = 0, bi_size = 1024,
     bi_io_vec = [\<lparr>bv_page = 8192, bv_len = 1024, bv_offset = 0\<rparr>]\<rparr>"

section \<open>Construction\<close>

text \<open>
  \<open>strsep(&s, ct)\<close>: the token up to the first delimiter, and what \<open>s\<close> points at
  afterwards (\<open>NULL\<close> when no delimiter was found, or when \<open>s\<close> was \<open>NULL\<close> already).
\<close>

fun strsep_split :: "string \<Rightarrow> string \<Rightarrow> string \<times> string option" where
  "strsep_split [] ct = ([], None)"
| "strsep_split (c # cs) ct =
     (if c \<in> set ct then ([], Some cs)
      else (case strsep_split cs ct of (tok, rest) \<Rightarrow> (c # tok, rest)))"

fun strsep :: "string option \<Rightarrow> string \<Rightarrow> string option \<times> string option" where
  "strsep None ct = (None, None)"
| "strsep (Some s) ct = (case strsep_split s ct of (tok, rest) \<Rightarrow> (Some tok, rest))"

text \<open>
  The four calls of \<open>strsep\<close> at the head of \<open>crypt_ctr\<close>: cipher, chainmode, ivmode,
  ivopts, and what is left of \<open>tmp\<close> (additional options, which are only warned about).
\<close>

definition parse_cipher_spec ::
  "string \<Rightarrow> string option \<times> string option \<times> string option \<times> string option \<times> string option" where
  "parse_cipher_spec arg =
     (case strsep (Some arg) ''-'' of (ciph, tmp1) \<Rightarrow>
      case strsep tmp1 ''-'' of (cm, tmp2) \<Rightarrow>
      case strsep tmp2 ''-'' of (ivopts0, tmp3) \<Rightarrow>
      case strsep ivopts0 '':'' of (ivmode, ivopts) \<Rightarrow>
        (ciph, cm, ivmode, ivopts, tmp3))"

text \<open>The compatibility mode for old cipher strings: the chainmode and ivmode used.\<close>

definition compat_defaults :: "string option \<Rightarrow> string option \<Rightarrow> string \<times> string option" where
  "compat_defaults cm0 ivmode =
     (case cm0 of
        None \<Rightarrow> (''cbc'', Some ''plain'')
      | Some cm \<Rightarrow>
          if cm = ''plain'' \<and> ivmode = None then (''cbc'', Some ''plain'')
          else (cm, ivmode))"

definition CRYPTO_MAX_ALG_NAME :: nat where "CRYPTO_MAX_ALG_NAME = 64"

text \<open>
  \<open>sscanf(s, "%llu", &tmpll)\<close>: white space is skipped, then at least one decimal digit
  is read; the value wraps at 64 bits. \<open>None\<close> when nothing was converted.
\<close>

definition isspace_c :: "nat \<Rightarrow> bool" where
  "isspace_c c = (c = 32 \<or> (9 \<le> c \<and> c \<le> 13) \<or> c = 160)"

definition dec_digit :: "char \<Rightarrow> nat option" where
  "dec_digit c = (let n = chr_code c in if 48 \<le> n \<and> n \<le> 57 then Some (n - 48) else None)"

fun parse_dec_digits :: "string \<Rightarrow> nat \<Rightarrow> nat" where
  "parse_dec_digits [] acc = acc"
| "parse_dec_digits (c # cs) acc =
     (case dec_digit c of None \<Rightarrow> acc | Some v \<Rightarrow> parse_dec_digits cs (acc * 10 + v))"

definition sscanf_llu :: "string \<Rightarrow> u64 option" where
  "sscanf_llu s =
     (case dropWhile (\<lambda>c. isspace_c (chr_code c)) s of
        [] \<Rightarrow> None
      | c # cs \<Rightarrow> if dec_digit c = None then None
                  else Some (word_of_nat (parse_dec_digits (c # cs) 0)))"

text \<open>
  What construction asks of the rest of the kernel, each answer given once: the build
  (\<open>CONFIG_OCF_DM_CRYPT\<close> or not), the allocations, the OCF session, the synchronous
  transform of a cipher name (its block size and IV size), the three steps of the ESSIV
  set-up (hash and salt; single-block cipher and its block size; keying it, which yields
  the encryption function), keying the transform, and the device lookup. A failure of the
  crypto API carries its error number.
\<close>

record ctr_env =
  ocf_build :: bool
  kzalloc_ok :: bool
  newsession :: "u64 option"
  alloc_blkcipher :: "string \<Rightarrow> (u32 \<times> u32) option"
  essiv_salt :: "string \<Rightarrow> (c_int \<times> string) + u8 list"
  essiv_cipher :: "string \<Rightarrow> c_int + u32"
  essiv_setkey :: "u8 list \<Rightarrow> c_int + (u8 list \<Rightarrow> u8 list)"
  io_pool_ok :: bool
  page_pool_ok :: bool
  bioset_ok :: bool
  blkcipher_setkey :: c_int
  get_device :: "string \<Rightarrow> bool"
  iv_mode_alloc_ok :: bool

text \<open>
  \<open>crypt_iv_essiv_ctr\<close>, given the IV size the block size of the ESSIV cipher is
  compared with (\<open>cc->iv_size\<close> in the OCF build, \<open>crypto_blkcipher_ivsize(cc->tfm)\<close>
  otherwise). The result is as for \<open>crypt_iv_benbi_ctr\<close>.
\<close>

definition crypt_iv_essiv_ctr ::
  "ctr_env \<Rightarrow> crypt_config \<Rightarrow> string option \<Rightarrow> u32 \<Rightarrow> c_int \<times> string option \<times> crypt_config" where
  "crypt_iv_essiv_ctr env cc opts ivsz =
     (case opts of
        None \<Rightarrow> (- EINVAL, Some ''Digest algorithm missing for ESSIV mode'', cc)
      | Some h \<Rightarrow>
          (case essiv_salt env h of
             Inl (e, msg) \<Rightarrow> (e, Some msg, cc)
           | Inr salt \<Rightarrow>
               (case essiv_cipher env (cipher cc) of
                  Inl e \<Rightarrow> (e, Some ''Error allocating crypto tfm for ESSIV'', cc)
                | Inr bsz \<Rightarrow>
                    if bsz \<noteq> ivsz
                    then (- EINVAL,
                          Some ''Block size of ESSIV cipher does not match IV size of block cipher'',
                          cc)
                    else
                      (case essiv_setkey env salt of
                         Inl e \<Rightarrow> (e, Some ''Failed to set key for ESSIV cipher'', cc)
                       | Inr f \<Rightarrow> (0, None, cc\<lparr>essiv_tfm := Some f\<rparr>)))))"

text \<open>
  The outcome of \<open>crypt_ctr\<close>: the error returned with the message in \<open>ti->error\<close>, the
  configuration stored in \<open>ti->private\<close> on success (the return value is 0), or no
  outcome where an IV constructor is undefined.
\<close>

datatype ctr_result = Ctr_error c_int string | Ctr_ok crypt_config | Ctr_undefined

text \<open>
  The optional constructor of the chosen IV mode, \<open>cc->iv_gen_ops->ctr(cc, ti, ivopts)\<close>:
  plain and null have none.
\<close>

definition iv_ctr ::
  "ctr_env \<Rightarrow> crypt_config \<Rightarrow> string option \<Rightarrow> u32 \<Rightarrow> (c_int \<times> string option \<times> crypt_config) option" where
  "iv_ctr env cc ivopts ivsz =
     (case iv_gen_ops cc of
        Some Essiv_ops \<Rightarrow> Some (crypt_iv_essiv_ctr env cc ivopts ivsz)
      | Some Benbi_ops \<Rightarrow>
          (case tfm cc of
             None \<Rightarrow> None
           | Some (bs, _) \<Rightarrow> crypt_iv_benbi_ctr cc bs)
      | _ \<Rightarrow> Some (0, None, cc))"

text \<open>The choice of \<open>iv_gen_ops\<close> by the name of the IV mode; benbi exists without OCF only.\<close>

definition choose_iv_ops :: "bool \<Rightarrow> string option \<Rightarrow> string + iv_ops option" where
  "choose_iv_ops ocf ivmode =
     (case ivmode of
        None \<Rightarrow> Inr None
      | Some m \<Rightarrow>
          if m = ''plain'' then Inr (Some Plain_ops)
          else if m = ''essiv'' then Inr (Some Essiv_ops)
          else if \<not> ocf \<and> m = ''benbi'' then Inr (Some Benbi_ops)
          else if m = ''null'' then Inr (Some Null_ops)
          else Inl ''Invalid IV mode'')"

text \<open>
  \<open>crypt_ctr\<close> in three parts, after its head: the cipher backend (the OCF session or
  the synchronous transform), the IV mode with its constructor and the IV size, and the
  pools, the key of the transform, the two sector arguments, the device and the name of the
  IV mode. Every failure from here on returns \<open>-EINVAL\<close>.
\<close>

definition crypt_ctr_backend ::
  "ctr_env \<Rightarrow> string \<Rightarrow> string \<Rightarrow> crypt_config \<Rightarrow> string + crypt_config" where
  "crypt_ctr_backend env ciph cm cc =
     (if ocf_build env then
        (let alg = (if ciph = ''aes'' \<and> cm = ''cbc'' then Some CRYPTO_AES_CBC
                    else if ciph = ''des'' \<and> cm = ''cbc'' then Some CRYPTO_DES_CBC
                    else if ciph = ''des3_ede'' \<and> cm = ''cbc'' then Some CRYPTO_3DES_CBC
                    else None)
         in case alg of
              None \<Rightarrow> Inl ''cryptusing OCF: unknown cipher or bad chain mode''
            | Some a \<Rightarrow>
                (case newsession env of
                   None \<Rightarrow> Inl ''cryptcrypto_newsession failed''
                 | Some sid \<Rightarrow>
                     Inr (cc\<lparr>cri_alg := Some a, cri_klen := key_size cc * 8,
                              ocf_cryptoid := sid, cipher := ciph, chainmode := cm\<rparr>)))
      else
        (case alloc_blkcipher env (cm @ ''('' @ ciph @ '')'') of
           None \<Rightarrow> Inl ''Error allocating crypto tfm''
         | Some t \<Rightarrow> Inr (cc\<lparr>cipher := ciph, chainmode := cm, tfm := Some t\<rparr>)))"

definition crypt_ctr_iv ::
  "ctr_env \<Rightarrow> string option \<Rightarrow> string option \<Rightarrow> crypt_config \<Rightarrow> (string + crypt_config) option" where
  "crypt_ctr_iv env ivmode ivopts cc =
     (case choose_iv_ops (ocf_build env) ivmode of
        Inl msg \<Rightarrow> Some (Inl msg)
      | Inr ops \<Rightarrow>
          if ocf_build env then
            (let cc1 = cc\<lparr>iv_gen_ops := ops,
                          iv_size := (if cri_alg cc = Some CRYPTO_AES_CBC then 16 else 8)\<rparr>
             in case iv_ctr env cc1 ivopts (iv_size cc1) of
                  None \<Rightarrow> None
                | Some (r, msg, cc2) \<Rightarrow>
                    if r <s 0 then Some (Inl (case msg of Some m \<Rightarrow> m | None \<Rightarrow> []))
                    else Some (Inr cc2))
          else
            (let cc1 = cc\<lparr>iv_gen_ops := ops\<rparr>;
                 ivsz = (case tfm cc of Some (_, n) \<Rightarrow> n | None \<Rightarrow> 0)
             in case iv_ctr env cc1 ivopts ivsz of
                  None \<Rightarrow> None
                | Some (r, msg, cc2) \<Rightarrow>
                    if r <s 0 then Some (Inl (case msg of Some m \<Rightarrow> m | None \<Rightarrow> []))
                    else if ivsz \<noteq> 0 then Some (Inr (cc2\<lparr>iv_size := max ivsz 8\<rparr>))
                    else if iv_gen_ops cc2 \<noteq> None
                      then Some (Inr (cc2\<lparr>iv_size := 0, iv_gen_ops := None, essiv_tfm := None\<rparr>))
                    else Some (Inr (cc2\<lparr>iv_size := 0\<rparr>))))"

definition crypt_ctr_finish ::
  "ctr_env \<Rightarrow> string list \<Rightarrow> string option \<Rightarrow> string option \<Rightarrow> crypt_config \<Rightarrow> string + crypt_config" where
  "crypt_ctr_finish env argv ivmode ivopts cc =
     (if \<not> io_pool_ok env then Inl ''Cannot allocate crypt io mempool''
      else if \<not> page_pool_ok env then Inl ''Cannot allocate page mempool''
      else if \<not> bioset_ok env then Inl ''Cannot allocate crypt bioset''
      else if \<not> ocf_build env \<and> blkcipher_setkey env <s 0 then Inl ''Error setting key''
      else
        (case sscanf_llu (argv ! 2) of
           None \<Rightarrow> Inl ''Invalid iv_offset sector''
         | Some off \<Rightarrow>
             (case sscanf_llu (argv ! 4) of
                None \<Rightarrow> Inl ''Invalid device sector''
              | Some st \<Rightarrow>
                  if \<not> get_device env (argv ! 3) then Inl ''Device lookup failed''
                  else
                    (let cc1 = cc\<lparr>iv_offset := off, start := st, dev := Some (argv ! 3)\<rparr>
                     in case ivmode of
                          None \<Rightarrow> Inr (cc1\<lparr>iv_mode := None\<rparr>)
                        | Some m \<Rightarrow>
                            if iv_gen_ops cc = None then Inr (cc1\<lparr>iv_mode := None\<rparr>)
                            else if \<not> iv_mode_alloc_ok env
                              then Inl ''Error kmallocing iv_mode string''
                            else Inr (cc1\<lparr>iv_mode :=
                                   Some (case ivopts of None \<Rightarrow> m | Some opt \<Rightarrow> m @ '':'' @ opt)\<rparr>)))))"

definition crypt_ctr :: "ctr_env \<Rightarrow> string list \<Rightarrow> ctr_result" where
  "crypt_ctr env argv =
     (if length argv \<noteq> 5 then Ctr_error (- EINVAL) ''Not enough arguments''
      else
        (case parse_cipher_spec (argv ! 0) of (ciph0, chainmode0, ivmode0, ivopts, extra) \<Rightarrow>
           (let ciph = (case ciph0 of Some c \<Rightarrow> c | None \<Rightarrow> []);
                ksz = drop_bit 1 (word_of_nat (length (argv ! 1)) :: u32)
            in if \<not> kzalloc_ok env
               then Ctr_error (- ENOMEM) ''Cannot allocate transparent encryption context''
               else
                 (case crypt_set_key (kzalloc_config (unat ksz)) (argv ! 1) of (r, cc1) \<Rightarrow>
                    if r \<noteq> 0 then Ctr_error (- EINVAL) ''Error decoding key''
                    else
                      (case compat_defaults chainmode0 ivmode0 of (cm, ivmode) \<Rightarrow>
                         if cm \<noteq> ''ecb'' \<and> ivmode = None
                         then Ctr_error (- EINVAL) ''This chaining mode requires an IV mechanism''
                         else if length cm + length ciph + 2 \<ge> CRYPTO_MAX_ALG_NAME
                         then Ctr_error (- EINVAL) ''Chain mode + cipher name is too long''
                         else
                           (case crypt_ctr_backend env ciph cm cc1 of
                              Inl msg \<Rightarrow> Ctr_error (- EINVAL) msg
                            | Inr cc2 \<Rightarrow>
                                (case crypt_ctr_iv env ivmode ivopts cc2 of
                                   None \<Rightarrow> Ctr_undefined
                                 | Some (Inl msg) \<Rightarrow> Ctr_error (- EINVAL) msg
                                 | Some (Inr cc3) \<Rightarrow>
                                     (case crypt_ctr_finish env argv ivmode ivopts cc3 of
                                        Inl msg \<Rightarrow> Ctr_error (- EINVAL) msg
                                      | Inr cc4 \<Rightarrow> Ctr_ok cc4))))))))"

text \<open>A kernel in which every request of construction succeeds, for the examples.\<close>

definition example_ctr_env :: "bool \<Rightarrow> ctr_env" where
  "example_ctr_env ocf =
     \<lparr>ocf_build = ocf, kzalloc_ok = True, newsession = Some 1,
      alloc_blkcipher = (\<lambda>_. Some (16, 16)),
      essiv_salt = (\<lambda>_. Inr (replicate 32 0)), essiv_cipher = (\<lambda>_. Inr 16),
      essiv_setkey = (\<lambda>_. Inr (\<lambda>iv. iv)), io_pool_ok = True, page_pool_ok = True,
      bioset_ok = True, blkcipher_setkey = 0, get_device = (\<lambda>_. True),
      iv_mode_alloc_ok = True\<rparr>"

text \<open>The configuration a successful construction stores, if it is one.\<close>

fun ctr_config :: "ctr_result \<Rightarrow> crypt_config option" where
  "ctr_config (Ctr_ok cc) = Some cc"
| "ctr_config (Ctr_error e msg) = None"
| "ctr_config Ctr_undefined = None"

definition example_argv :: "string \<Rightarrow> string \<Rightarrow> string list" where
  "example_argv spec k = [spec, k, ''0'', ''/dev/sda'', ''0'']"

section \<open>Flag bits and error numbers\<close>

lemma test_bit_ul_iff: "test_bit_ul nr w = bit w nr"
  by (simp add: test_bit_ul_def push_bit_of_1 and_exp_eq_0_iff_not_bit)

lemma bit_set_bit_ul: "bit (set_bit_ul nr w) n = (bit w n \<or> (n = nr \<and> nr < 32))"
  by (auto simp add: set_bit_ul_def bit_or_iff bit_exp_iff possible_bit_word)

lemma bit_clear_bit_ul: "bit (clear_bit_ul nr w) n = (bit w n \<and> n \<noteq> nr)"
  by (auto simp add: clear_bit_ul_def bit_and_iff bit_not_iff bit_exp_iff possible_bit_word
      dest: bit_imp_le_length)

lemma errno_negative:
  "- EAGAIN <s 0" "- EINVAL <s 0" "- ENOMEM <s 0" "- EIO <s 0" "- EPERM <s 0"
  by (simp_all add: EAGAIN_def EINVAL_def ENOMEM_def EIO_def EPERM_def word_sless_alt)

lemma errno_nonzero:
  "- EAGAIN \<noteq> 0" "- EINVAL \<noteq> 0" "- ENOMEM \<noteq> 0" "- EIO \<noteq> 0" "- EPERM \<noteq> 0"
  by (simp_all add: EAGAIN_def EINVAL_def ENOMEM_def EIO_def EPERM_def)

lemma message_words:
  "strnicmp ''key'' ''key'' 4 = 0" "strnicmp ''wipe'' ''wipe'' 5 = 0"
  "strnicmp ''set'' ''set'' 4 = 0"
  by code_simp+

section \<open>Decoding a key\<close>

lemma parse_two_hex:
  assumes "hex_digit a = Some x" "hex_digit b = Some y"
  shows "simple_strtoul16 [a, b] = (x * 16 + y, 2)"
proof -
  have "tolower_c (chr_code b) \<noteq> chr_code CHR ''x''"
    using assms(2)
    by (auto simp: hex_digit_def tolower_c_def isupper_c_def chr_code_def Let_def
        split: if_splits)
  then show ?thesis using assms by (simp add: simple_strtoul16_def)
qed

lemma decode_loop_ok:
  "length hex = 2 * n \<Longrightarrow> list_all (\<lambda>c. hex_digit c \<noteq> None) hex \<Longrightarrow>
   fst (crypt_decode_key_loop k hex i n) = 0"
proof (induction n arbitrary: k hex i)
  case 0
  then show ?case by simp
next
  case (Suc n)
  then obtain a b rest where hex: "hex = a # b # rest"
    by (cases hex; cases "tl hex") auto
  with Suc.prems obtain x y where xy: "hex_digit a = Some x" "hex_digit b = Some y" by auto
  have "length rest = 2 * n" "list_all (\<lambda>c. hex_digit c \<noteq> None) rest"
    using Suc.prems hex by auto
  from Suc.IH[OF this] show ?case
    by (simp add: hex parse_two_hex[OF xy])
qed

section \<open>Resume and key wipe\<close>

text \<open>
  Claim C6. \<open>crypt_preresume\<close> returns \<open>-EAGAIN\<close> (\<open>-11\<close>) when the key-valid bit is
  clear and 0 when it is set. For every configuration, after \<open>crypt_postsuspend\<close> the
  message \<open>key wipe\<close> is accepted (it returns 0) and \<open>crypt_preresume\<close> on the
  resulting configuration returns \<open>-EAGAIN\<close>.
\<close>

theorem crypt_preresume_key_valid:
  "crypt_preresume cc = (if test_bit_ul DM_CRYPT_KEY_VALID (flags cc) then 0 else - EAGAIN)
   \<and> sint (- EAGAIN) = - 11
   \<and> fst (crypt_message (crypt_postsuspend cc) [''key'', ''wipe'']) = 0
   \<and> crypt_preresume (snd (crypt_message (crypt_postsuspend cc) [''key'', ''wipe''])) = - EAGAIN"
proof -
  have susp: "test_bit_ul DM_CRYPT_SUSPENDED (flags (crypt_postsuspend cc))"
    by (simp add: crypt_postsuspend_def test_bit_ul_iff bit_set_bit_ul DM_CRYPT_SUSPENDED_def)
  have msg: "crypt_message (crypt_postsuspend cc) [''key'', ''wipe'']
      = crypt_wipe_key (crypt_postsuspend cc)"
    using susp by (simp add: crypt_message_def message_words)
  have wiped: "\<not> test_bit_ul DM_CRYPT_KEY_VALID (flags (snd (crypt_wipe_key c)))" for c
    by (simp add: crypt_wipe_key_def test_bit_ul_iff bit_clear_bit_ul)
  show ?thesis
    using wiped[of "crypt_postsuspend cc"]
    by (simp add: msg crypt_preresume_def EAGAIN_def) (simp add: crypt_wipe_key_def)
qed

theorem crypt_preresume_key_valid_witness:
  "crypt_preresume (kzalloc_config 0) = - EAGAIN
   \<and> crypt_preresume (snd (crypt_message
         (crypt_postsuspend (snd (crypt_set_key (kzalloc_config 2) ''a1b2'')))
         [''key'', ''wipe''])) = - EAGAIN"
  using crypt_preresume_key_valid[of "kzalloc_config 0"]
    crypt_preresume_key_valid[of "snd (crypt_set_key (kzalloc_config 2) ''a1b2'')"]
  by (simp add: kzalloc_config_def test_bit_ul_def DM_CRYPT_KEY_VALID_def)

text \<open>
  Claim C7. \<open>crypt_wipe_key\<close> returns 0; in the configuration it leaves, the key-valid
  bit is clear and each of the \<open>key_size\<close> bytes of the key buffer is zero. The stored
  key size itself is unchanged.
\<close>

theorem crypt_wipe_key_zeroes:
  "fst (crypt_wipe_key cc) = 0
   \<and> \<not> test_bit_ul DM_CRYPT_KEY_VALID (flags (snd (crypt_wipe_key cc)))
   \<and> (\<forall>i < unat (key_size cc). key (snd (crypt_wipe_key cc)) i = 0)
   \<and> key_size (snd (crypt_wipe_key cc)) = key_size cc"
  by (simp add: crypt_wipe_key_def test_bit_ul_iff bit_clear_bit_ul)

theorem crypt_wipe_key_zeroes_witness:
  "key (snd (crypt_set_key (kzalloc_config 2) ''a1b2'')) 1 = 0xb2
   \<and> test_bit_ul DM_CRYPT_KEY_VALID (flags (snd (crypt_set_key (kzalloc_config 2) ''a1b2'')))
   \<and> fst (crypt_wipe_key (snd (crypt_set_key (kzalloc_config 2) ''a1b2''))) = 0
   \<and> key (snd (crypt_wipe_key (snd (crypt_set_key (kzalloc_config 2) ''a1b2'')))) 0 = 0
   \<and> key (snd (crypt_wipe_key (snd (crypt_set_key (kzalloc_config 2) ''a1b2'')))) 1 = 0
   \<and> \<not> test_bit_ul DM_CRYPT_KEY_VALID
         (flags (snd (crypt_wipe_key (snd (crypt_set_key (kzalloc_config 2) ''a1b2'')))))"
proof -
  have before: "key (snd (crypt_set_key (kzalloc_config 2) ''a1b2'')) 1 = 0xb2"
    "test_bit_ul DM_CRYPT_KEY_VALID (flags (snd (crypt_set_key (kzalloc_config 2) ''a1b2'')))"
    "key_size (snd (crypt_set_key (kzalloc_config 2) ''a1b2'')) = 2"
    by code_simp+
  show ?thesis
    using crypt_wipe_key_zeroes[of "snd (crypt_set_key (kzalloc_config 2) ''a1b2'')"] before
    by simp
qed

section \<open>Setting a key\<close>

lemma set_key_size_fixed:
  "key_size cc \<noteq> 0 \<Longrightarrow> key_size (snd (crypt_set_key cc k)) = key_size cc"
  by (auto simp: crypt_set_key_def Let_def split: prod.splits)

lemma wipe_key_size_fixed: "key_size (snd (crypt_wipe_key cc)) = key_size cc"
  by (simp add: crypt_wipe_key_def)

lemma message_key_size_fixed:
  "key_size cc \<noteq> 0 \<Longrightarrow> key_size (snd (crypt_message cc argv)) = key_size cc"
  by (simp add: crypt_message_def set_key_size_fixed wipe_key_size_fixed)

lemma messages_key_size_fixed:
  "key_size cc \<noteq> 0 \<Longrightarrow> key_size (crypt_messages cc msgs) = key_size cc"
  by (induction msgs arbitrary: cc) (simp_all add: message_key_size_fixed)

lemma set_key_wrong_length:
  "key_size cc \<noteq> 0 \<Longrightarrow> drop_bit 1 (word_of_nat (length k) :: u32) \<noteq> key_size cc \<Longrightarrow>
   crypt_set_key cc k = (- EINVAL, cc)"
  by (simp add: crypt_set_key_def)

lemma strlen_half:
  assumes "length k < 2 ^ 32"
  shows "unat (drop_bit 1 (word_of_nat (length k) :: u32)) = length k div 2"
proof -
  have "unat (word_of_nat (length k) :: u32) = length k"
    using assms by (simp add: unat_of_nat)
  then show ?thesis by (simp only: unat_drop_bit_eq) (simp add: drop_bit_eq_div)
qed

lemma set_key_first:
  assumes "key_size cc = 0" "well_formed_hex k" "length k < 2 ^ 32"
  shows "fst (crypt_set_key cc k) = 0"
    and "unat (key_size (snd (crypt_set_key cc k))) = length k div 2"
    and "key_size (snd (crypt_set_key cc k)) \<noteq> 0"
    and "test_bit_ul DM_CRYPT_KEY_VALID (flags (snd (crypt_set_key cc k)))"
    and "key_alloc (snd (crypt_set_key cc k)) = key_alloc cc"
proof -
  let ?ksz = "drop_bit 1 (word_of_nat (length k) :: u32)"
  have half: "unat ?ksz = length k div 2" by (rule strlen_half[OF assms(3)])
  have len: "length k = 2 * (length k div 2)" "length k div 2 \<noteq> 0"
    using assms(2) by (cases k; auto simp: well_formed_hex_def elim!: evenE)+
  have nz: "?ksz \<noteq> 0" using half len(2) by (metis unat_0)
  have dec: "fst (crypt_decode_key (key cc) k (unat ?ksz)) = 0"
    unfolding crypt_decode_key_def half
    using assms(2) len(1) by (intro decode_loop_ok) (auto simp: well_formed_hex_def)
  obtain r k' where rk: "crypt_decode_key (key cc) k (unat ?ksz) = (r, k')" by force
  with dec have r: "r = 0" by simp
  have res: "crypt_set_key cc k =
    (0, cc\<lparr>key_size := ?ksz, key := k', flags := set_bit_ul DM_CRYPT_KEY_VALID (flags cc)\<rparr>)"
    using assms(1) nz rk r by (simp add: crypt_set_key_def Let_def)
  show "fst (crypt_set_key cc k) = 0" by (simp add: res)
  show "unat (key_size (snd (crypt_set_key cc k))) = length k div 2" using half by (simp add: res)
  show "key_size (snd (crypt_set_key cc k)) \<noteq> 0" using nz by (simp add: res)
  show "test_bit_ul DM_CRYPT_KEY_VALID (flags (snd (crypt_set_key cc k)))"
    by (simp add: res test_bit_ul_iff bit_set_bit_ul DM_CRYPT_KEY_VALID_def)
  show "key_alloc (snd (crypt_set_key cc k)) = key_alloc cc" by (simp add: res)
qed

lemma set_key_dash:
  assumes "key_size cc = 0"
  shows "crypt_set_key cc ''-'' = (0, cc\<lparr>key_size := 0, flags := set_bit_ul DM_CRYPT_KEY_VALID (flags cc)\<rparr>)"
  using assms by (simp add: crypt_set_key_def Let_def)

text \<open>
  Claim C9. The same-length rule of \<open>crypt_set_key\<close> applies only to a non-zero stored
  size. On a target whose stored key size is zero, a well-formed hexadecimal key of any
  length is accepted: the call returns 0 and stores half the string's length as the key
  size, although the room reserved for the key is unchanged. From then on the size is
  fixed: no run of messages changes it, and a key of another length is refused with
  \<open>-EINVAL\<close>, the configuration untouched.
\<close>

theorem crypt_set_key_unkeyed_any_length:
  assumes "key_size cc = 0" and "well_formed_hex k" and "length k < 2 ^ 32"
  shows "fst (crypt_set_key cc k) = 0
    \<and> unat (key_size (snd (crypt_set_key cc k))) = length k div 2
    \<and> key_size (snd (crypt_set_key cc k)) \<noteq> 0
    \<and> key_alloc (snd (crypt_set_key cc k)) = key_alloc cc
    \<and> (\<forall>msgs. key_size (crypt_messages (snd (crypt_set_key cc k)) msgs)
          = key_size (snd (crypt_set_key cc k)))
    \<and> (\<forall>k'. drop_bit 1 (word_of_nat (length k') :: u32) \<noteq> key_size (snd (crypt_set_key cc k))
          \<longrightarrow> crypt_set_key (snd (crypt_set_key cc k)) k' = (- EINVAL, snd (crypt_set_key cc k)))"
  using set_key_first[OF assms]
  by (simp add: messages_key_size_fixed set_key_wrong_length)

theorem crypt_set_key_unkeyed_any_length_witness:
  "key_size (kzalloc_config 0) = 0 \<and> well_formed_hex ''00112233aabbccdd''
   \<and> fst (crypt_set_key (kzalloc_config 0) ''00112233aabbccdd'') = 0
   \<and> key_size (snd (crypt_set_key (kzalloc_config 0) ''00112233aabbccdd'')) = 8
   \<and> key_alloc (snd (crypt_set_key (kzalloc_config 0) ''00112233aabbccdd'')) = 0
   \<and> fst (crypt_set_key (snd (crypt_set_key (kzalloc_config 0) ''00112233aabbccdd'')) ''0011'') = - EINVAL"
proof -
  have h: "key_size (kzalloc_config 0) = 0" "well_formed_hex ''00112233aabbccdd''"
    "length ''00112233aabbccdd'' < 2 ^ 32"
    by (simp add: kzalloc_config_def, code_simp, simp)
  have k8: "key_size (snd (crypt_set_key (kzalloc_config 0) ''00112233aabbccdd'')) = 8"
    by code_simp
  have "drop_bit 1 (word_of_nat (length ''0011'') :: u32) \<noteq> 8" by simp
  with crypt_set_key_unkeyed_any_length[OF h] h k8 show ?thesis
    by (simp add: kzalloc_config_def)
qed


section \<open>Completion of a request\<close>

lemma last_failure_Cons:
  "last_failure e0 (e # es) = last_failure (if e <s 0 then e else e0) es"
  by (simp add: last_failure_def split: list.splits)

lemma dec_pending_calls_all:
  "errs \<noteq> [] \<Longrightarrow> length errs < 2 ^ 32 \<Longrightarrow> pending io = word_of_nat (length errs) \<Longrightarrow>
   dec_pending_calls highmem io errs =
     (Completed (endio_target highmem (base_bio io)) (last_failure (error io) errs), [])"
proof (induction errs arbitrary: io)
  case Nil
  then show ?case by simp
next
  case (Cons e es)
  let ?io1 = "if e <s 0 then io\<lparr>error := e\<rparr> else io"
  let ?io2 = "?io1\<lparr>pending := pending ?io1 - 1\<rparr>"
  have p2: "pending ?io2 = word_of_nat (length es)" using Cons.prems(3) by simp
  show ?case
  proof (cases es)
    case Nil
    then show ?thesis using p2
      by (auto simp add: dec_pending_def Let_def last_failure_def)
  next
    case (Cons a as)
    have "length es < 2 ^ 32" using Cons.prems(2) by simp
    then have "unat (word_of_nat (length es) :: c_int) = length es"
      by (simp add: unat_of_nat)
    then have nz: "pending ?io2 \<noteq> 0" using Cons p2 by (metis length_0_conv list.distinct(1) unat_0)
    then have step: "dec_pending highmem io e = Still_pending ?io2"
      by (simp add: dec_pending_def Let_def)
    have "es \<noteq> []" using Cons by simp
    from Cons.IH[OF this \<open>length es < 2 ^ 32\<close> p2] show ?thesis
      by (simp add: step last_failure_Cons)
  qed
qed

lemma dec_pending_error:
  "dec_pending highmem io e = Still_pending io' \<Longrightarrow>
     error io' = (if e <s 0 then e else error io) \<and> pending io' = pending io - 1 \<and> base_bio io' = base_bio io"
  by (auto simp: dec_pending_def Let_def split: if_splits)


text \<open>
  Claim C1, as the claim states it, fails: the object holds two references, the first
  call passes \<open>-EIO\<close> and the second \<open>-ENOMEM\<close>; the bio is completed with
  \<open>-ENOMEM\<close>, not with the first failure \<open>-EIO\<close>.
\<close>

theorem dec_pending_first_failure_counterexample:
  "dec_pending_calls False (new_io example_bio 2) [- EIO, - ENOMEM]
     = (Completed 7 (- ENOMEM), [])
   \<and> first_failure (error (new_io example_bio 2)) [- EIO, - ENOMEM] = - EIO
   \<and> - ENOMEM \<noteq> - EIO"
  by code_simp

text \<open>
  Claim C1, amended. \<open>dec_pending\<close> stores every negative error it is passed and leaves
  the stored error alone otherwise. So for a sequence of calls on an object that holds as
  many references as there are calls, the request completes at the last call and at no
  earlier one, and the original bio is completed with the last negative error passed (with
  the error the object held at the start when none is negative): a later success does not
  change the latched error, a later failure replaces it.
\<close>

theorem dec_pending_last_failure_wins:
  assumes "errs \<noteq> []" and "length errs < 2 ^ 32"
    and "pending io = word_of_nat (length errs)"
  shows "dec_pending_calls highmem io errs
      = (Completed (endio_target highmem (base_bio io)) (last_failure (error io) errs), [])
    \<and> (\<forall>e io'. dec_pending highmem io e = Still_pending io'
          \<longrightarrow> error io' = (if e <s 0 then e else error io))"
  using dec_pending_calls_all[OF assms] dec_pending_error by blast

theorem dec_pending_last_failure_wins_witness:
  "dec_pending_calls True (new_io example_bio 3) [- EIO, 0, - ENOMEM]
      = (Completed 7 (- ENOMEM), [])
   \<and> dec_pending_calls True (new_io example_bio 3) [0, - EIO, 0] = (Completed 7 (- EIO), [])
   \<and> dec_pending True (new_io example_bio 3) (- EIO)
      = Still_pending ((new_io example_bio 2)\<lparr>error := - EIO\<rparr>)"
proof -
  have h: "[- EIO, 0, - ENOMEM] \<noteq> ([] :: c_int list)"
    "length [- EIO, 0, - ENOMEM] < (2 :: nat) ^ 32"
    "pending (new_io example_bio 3) = word_of_nat (length [- EIO, 0, - ENOMEM])"
    by (simp_all add: new_io_def)
  have l: "last_failure (error (new_io example_bio 3)) [- EIO, 0, - ENOMEM] = - ENOMEM"
    "endio_target True (base_bio (new_io example_bio 3)) = 7"
    by code_simp+
  have rest: "dec_pending_calls True (new_io example_bio 3) [0, - EIO, 0] = (Completed 7 (- EIO), [])"
    "dec_pending True (new_io example_bio 3) (- EIO)
      = Still_pending ((new_io example_bio 2)\<lparr>error := - EIO\<rparr>)"
    by code_simp+
  show ?thesis
    using dec_pending_last_failure_wins[OF h, of True] l rest by simp
qed

section \<open>The benbi generator\<close>

lemma be_value_be64: "be_value (be64_bytes v) = v"
proof (rule bit_word_eqI)
  fix n assume "n < LENGTH(64)"
  then have n: "n < 64" by simp
  have unf: "be_value (be64_bytes v) =
    push_bit 8 (push_bit 8 (push_bit 8 (push_bit 8 (push_bit 8 (push_bit 8 (push_bit 8
      (ucast (ucast (drop_bit 56 v) :: u8)) OR ucast (ucast (drop_bit 48 v) :: u8))
      OR ucast (ucast (drop_bit 40 v) :: u8)) OR ucast (ucast (drop_bit 32 v) :: u8))
      OR ucast (ucast (drop_bit 24 v) :: u8)) OR ucast (ucast (drop_bit 16 v) :: u8))
      OR ucast (ucast (drop_bit 8 v) :: u8)) OR ucast (ucast v :: u8)"
    by (simp add: be_value_def be64_bytes_def upt_rec)
  consider "n < 8" | "8 \<le> n" "n < 16" | "16 \<le> n" "n < 24" | "24 \<le> n" "n < 32"
    | "32 \<le> n" "n < 40" | "40 \<le> n" "n < 48" | "48 \<le> n" "n < 56" | "56 \<le> n" "n < 64"
    using n by linarith
  then show "bit (be_value (be64_bytes v)) n = bit v n"
    unfolding unf
    by cases (simp_all add: bit_simps, auto)
qed

lemma fls_nat_0: "fls_nat 0 = 0"
  by (simp add: fls_nat.simps)

lemma fls_nat_pos: "n \<noteq> 0 \<Longrightarrow> fls_nat n = Suc (fls_nat (n div 2))"
  by (subst fls_nat.simps) simp

lemma fls_nat_bounds: "n \<noteq> 0 \<Longrightarrow> 2 ^ (fls_nat n - 1) \<le> n \<and> n < 2 ^ fls_nat n"
proof (induction n rule: fls_nat.induct)
  case (1 n)
  show ?case
  proof (cases "n div 2 = 0")
    case True
    with 1 have "n = 1" by (cases n) auto
    then show ?thesis by (simp add: fls_nat_pos fls_nat_0)
  next
    case False
    with 1 have ih: "2 ^ (fls_nat (n div 2) - 1) \<le> n div 2" "n div 2 < 2 ^ fls_nat (n div 2)"
      by auto
    have pos: "fls_nat (n div 2) \<noteq> 0" using False by (simp add: fls_nat_pos)
    then have e: "(2::nat) ^ fls_nat (n div 2) = 2 * 2 ^ (fls_nat (n div 2) - 1)"
      by (cases "fls_nat (n div 2)") auto
    have f: "fls_nat n = Suc (fls_nat (n div 2))" using 1(2) by (rule fls_nat_pos)
    from ih e show ?thesis unfolding f by simp arith
  qed
qed

lemma fls_nat_pow2: "fls_nat (2 ^ k) = Suc k"
  by (induction k) (simp_all add: fls_nat_pos fls_nat_0)

lemma fls_nat_pow2_only:
  assumes "n \<noteq> 0" "n \<noteq> 2 ^ (fls_nat n - 1)"
  shows "\<nexists>k. n = 2 ^ k"
  using assms by (auto simp: fls_nat_pow2)

lemma ilog2_nonneg: "bs \<noteq> 0 \<Longrightarrow> 0 \<le> ilog2 bs \<and> nat (ilog2 bs) < 32 \<and> nat (ilog2 bs) = fls_nat (unat bs) - 1"
proof -
  assume "bs \<noteq> 0"
  then have nz: "unat bs \<noteq> 0" by (simp add: unat_eq_0)
  from fls_nat_bounds[OF this] have b: "2 ^ (fls_nat (unat bs) - 1) \<le> unat bs" by simp
  have "unat bs < 2 ^ 32" using unsigned_less[of bs] by simp
  with b have "(2::nat) ^ (fls_nat (unat bs) - 1) < 2 ^ 32" by linarith
  then have "fls_nat (unat bs) - 1 < 32" by (rule power_less_imp_less_exp[rotated]) simp
  moreover have "fls_nat (unat bs) \<noteq> 0" using nz by (simp add: fls_nat_pos)
  ultimately show ?thesis by (auto simp: ilog2_def)
qed

lemma push_bit_one_unat:
  assumes "k < 32"
  shows "unat (push_bit k (1 :: u32)) = 2 ^ k"
proof -
  have "(2::nat) ^ k < 2 ^ 32" using assms by (rule power_strict_increasing) simp
  moreover have "push_bit k (1 :: u32) = word_of_nat (2 ^ k)" by (simp add: push_bit_of_1)
  ultimately show ?thesis by (simp only: unat_of_nat) simp
qed

lemma benbi_ctr_pow2:
  assumes "unat bs = 2 ^ k" "k \<le> 9"
  shows "crypt_iv_benbi_ctr cc bs = Some (0, None, cc\<lparr>benbi_shift := word_of_nat (9 - k)\<rparr>)"
proof -
  have log: "ilog2 bs = int k" using assms(1) by (simp add: ilog2_def fls_nat_pow2)
  have "k < 32" using assms(2) by simp
  then have "unat (push_bit k (1 :: u32)) = unat bs" using assms(1) by (simp only: push_bit_one_unat)
  then have "push_bit k (1 :: u32) = bs" by (simp add: word_unat_eq_iff)
  moreover have "(9 :: c_int) - word_of_nat k = word_of_nat (9 - k)" using assms(2) by (simp add: of_nat_diff)
  ultimately show ?thesis using assms(2) by (simp add: crypt_iv_benbi_ctr_def log)
qed

lemma benbi_ctr_reject:
  assumes "bs \<noteq> 0" "(\<nexists>k. unat bs = 2 ^ k) \<or> 512 < unat bs"
  shows "\<exists>msg. crypt_iv_benbi_ctr cc bs = Some (- EINVAL, Some msg, cc)"
proof -
  from ilog2_nonneg[OF assms(1)] have l: "0 \<le> ilog2 bs" "nat (ilog2 bs) < 32" by auto
  show ?thesis
  proof (cases "push_bit (nat (ilog2 bs)) (1 :: u32) = bs")
    case False
    then show ?thesis using l by (simp add: crypt_iv_benbi_ctr_def Let_def)
  next
    case True
    then have p: "unat bs = 2 ^ nat (ilog2 bs)" using push_bit_one_unat[OF l(2)] by simp
    with assms(2) have "512 < unat bs" by blast
    with p have "(2::nat) ^ 9 < 2 ^ nat (ilog2 bs)" by simp
    then have "9 < nat (ilog2 bs)" by (rule power_less_imp_less_exp[rotated]) simp
    then show ?thesis using l True by (simp add: crypt_iv_benbi_ctr_def Let_def)
  qed
qed


lemma length_be64_bytes: "length (be64_bytes v) = 8"
  by (simp add: be64_bytes_def)

lemma put_after_memset:
  "8 \<le> length iv \<Longrightarrow> length bs = 8 \<Longrightarrow>
   put_bytes (memset_buf iv c (length iv - 8)) (length iv - 8) bs = replicate (length iv - 8) c @ bs"
  by (simp add: put_bytes_def memset_buf_def)

lemma benbi_gen_bytes:
  assumes "8 \<le> unat (iv_size cc)" "length iv = unat (iv_size cc)"
    and "0 \<le> sint (benbi_shift cc)" "sint (benbi_shift cc) < 64"
  shows "crypt_iv_benbi_gen cc iv sec =
    Some (0, replicate (length iv - 8) 0
             @ be64_bytes (push_bit (nat (sint (benbi_shift cc))) sec + 1))"
proof -
  have le: "(8 :: u32) \<le> iv_size cc" using assms(1) by (simp add: word_le_nat_alt)
  have sub: "unat (iv_size cc - 8) = length iv - 8"
    using assms(2) by (simp add: unat_sub[OF le])
  have n: "unat (iv_size cc) = length iv" "8 \<le> length iv" using assms(1,2) by simp_all
  have "crypt_iv_benbi_gen cc iv sec =
     Some (0, put_bytes (memset_buf iv 0 (length iv - 8)) (length iv - 8)
                (be64_bytes (push_bit (nat (sint (benbi_shift cc))) sec + 1)))"
    using assms(3,4) n(2) unfolding crypt_iv_benbi_gen_def Let_def sub n(1) by simp
  then show ?thesis
    by (simp only: put_after_memset[OF n(2) length_be64_bytes])
qed

lemma sint_small_nat:
  assumes "m \<le> 9"
  shows "sint (word_of_nat m :: c_int) = int m"
proof -
  have "sint (word_of_nat m :: c_int) = signed_take_bit 31 (int m)"
    by (simp add: signed_of_nat)
  also have "\<dots> = int m"
    using assms by (intro signed_take_bit_int_eq_self) simp_all
  finally show ?thesis .
qed

text \<open>
  Claim C4. For a cipher block size of \<open>2 ^ k\<close> with \<open>k \<le> 9\<close> the benbi constructor
  succeeds and stores the shift \<open>9 - k\<close>; for a block size that is not a power of two
  or that exceeds 512 it fails with \<open>-EINVAL\<close> and leaves the configuration as it was.
  The generator, on an IV buffer of \<open>iv_size \<ge> 8\<close> bytes, returns 0 and leaves a buffer
  of the same length whose bytes before the last eight are zero and whose last eight bytes
  are the big-endian image of \<open>(sector << shift) + 1\<close>: read most significant byte
  first they give that 64-bit value back.
\<close>

theorem benbi_shift_and_iv:
  "(\<forall>k. unat bs = 2 ^ k \<and> k \<le> 9 \<longrightarrow>
        crypt_iv_benbi_ctr cc bs = Some (0, None, cc\<lparr>benbi_shift := word_of_nat (9 - k)\<rparr>)
        \<and> sint (word_of_nat (9 - k) :: c_int) = 9 - int k)
   \<and> (bs \<noteq> 0 \<and> ((\<nexists>k. unat bs = 2 ^ k) \<or> 512 < unat bs) \<longrightarrow>
        (\<exists>msg. crypt_iv_benbi_ctr cc bs = Some (- EINVAL, Some msg, cc)))
   \<and> (8 \<le> unat (iv_size cc) \<and> length iv = unat (iv_size cc)
        \<and> 0 \<le> sint (benbi_shift cc) \<and> sint (benbi_shift cc) < 64 \<longrightarrow>
        (\<exists>iv'. crypt_iv_benbi_gen cc iv sec = Some (0, iv')
           \<and> length iv' = length iv
           \<and> take (length iv - 8) iv' = replicate (length iv - 8) 0
           \<and> drop (length iv - 8) iv'
                = be64_bytes (push_bit (nat (sint (benbi_shift cc))) sec + 1)
           \<and> be_value (drop (length iv - 8) iv')
                = push_bit (nat (sint (benbi_shift cc))) sec + 1))"
proof (intro conjI allI impI)
  fix k assume "unat bs = 2 ^ k \<and> k \<le> 9"
  then show "crypt_iv_benbi_ctr cc bs = Some (0, None, cc\<lparr>benbi_shift := word_of_nat (9 - k)\<rparr>)"
    by (simp add: benbi_ctr_pow2)
next
  fix k assume "unat bs = 2 ^ k \<and> k \<le> 9"
  then have "int (9 - k) = 9 - int k" by linarith
  then show "sint (word_of_nat (9 - k) :: c_int) = 9 - int k"
    using sint_small_nat[of "9 - k"] by simp
next
  assume "bs \<noteq> 0 \<and> ((\<nexists>k. unat bs = 2 ^ k) \<or> 512 < unat bs)"
  then show "\<exists>msg. crypt_iv_benbi_ctr cc bs = Some (- EINVAL, Some msg, cc)"
    by (intro benbi_ctr_reject) simp_all
next
  assume a: "8 \<le> unat (iv_size cc) \<and> length iv = unat (iv_size cc)
        \<and> 0 \<le> sint (benbi_shift cc) \<and> sint (benbi_shift cc) < 64"
  then have g: "crypt_iv_benbi_gen cc iv sec =
    Some (0, replicate (length iv - 8) 0
             @ be64_bytes (push_bit (nat (sint (benbi_shift cc))) sec + 1))"
    by (intro benbi_gen_bytes) simp_all
  have "8 \<le> length iv" using a by simp
  then show "\<exists>iv'. crypt_iv_benbi_gen cc iv sec = Some (0, iv')
           \<and> length iv' = length iv
           \<and> take (length iv - 8) iv' = replicate (length iv - 8) 0
           \<and> drop (length iv - 8) iv'
                = be64_bytes (push_bit (nat (sint (benbi_shift cc))) sec + 1)
           \<and> be_value (drop (length iv - 8) iv')
                = push_bit (nat (sint (benbi_shift cc))) sec + 1"
    unfolding g by (simp add: length_be64_bytes be_value_be64)
qed

theorem benbi_shift_and_iv_witness:
  "crypt_iv_benbi_ctr (kzalloc_config 0) 16
      = Some (0, None, (kzalloc_config 0)\<lparr>benbi_shift := 5\<rparr>)
   \<and> map_option fst (crypt_iv_benbi_ctr (kzalloc_config 0) 24) = Some (- EINVAL)
   \<and> (\<exists>msg. crypt_iv_benbi_ctr (kzalloc_config 0) 1024 = Some (- EINVAL, Some msg, kzalloc_config 0))
   \<and> crypt_iv_benbi_gen ((kzalloc_config 0)\<lparr>iv_size := 16, benbi_shift := 5\<rparr>)
        (replicate 16 0xAA) 3
      = Some (0, [0, 0, 0, 0, 0, 0, 0, 0, 0, 0, 0, 0, 0, 0, 0, 97])"
proof -
  let ?cc = "(kzalloc_config 0)\<lparr>iv_size := 16, benbi_shift := 5\<rparr>"
  have p: "unat (16 :: u32) = 2 ^ 4 \<and> (4 :: nat) \<le> 9" by simp
  have n24: "map_option fst (crypt_iv_benbi_ctr (kzalloc_config 0) 24) = Some (- EINVAL)"
    by code_simp
  have g: "8 \<le> unat (iv_size ?cc) \<and> length (replicate 16 (0xAA :: u8)) = unat (iv_size ?cc)
        \<and> 0 \<le> sint (benbi_shift ?cc) \<and> sint (benbi_shift ?cc) < 64"
    by simp
  have v: "be64_bytes (push_bit (nat (sint (benbi_shift ?cc))) (3 :: sector_t) + 1) = [0, 0, 0, 0, 0, 0, 0, 97]"
    by (simp add: be64_bytes_def upt_rec)
  have a: "crypt_iv_benbi_ctr (kzalloc_config 0) 16
      = Some (0, None, (kzalloc_config 0)\<lparr>benbi_shift := word_of_nat (9 - 4)\<rparr>)"
    using benbi_shift_and_iv[of 16 "kzalloc_config 0" "[]" 0] p by blast
  have "(1024 :: u32) \<noteq> 0 \<and> ((\<nexists>k. unat (1024 :: u32) = 2 ^ k) \<or> 512 < unat (1024 :: u32))"
    by simp
  then have b: "\<exists>msg. crypt_iv_benbi_ctr (kzalloc_config 0) 1024
      = Some (- EINVAL, Some msg, kzalloc_config 0)"
    using benbi_shift_and_iv[of 1024 "kzalloc_config 0" "[]" 0] by blast
  obtain iv' where c: "crypt_iv_benbi_gen ?cc (replicate 16 0xAA) 3 = Some (0, iv')"
    "length iv' = length (replicate 16 (0xAA :: u8))"
    "take (length (replicate 16 (0xAA :: u8)) - 8) iv'
       = replicate (length (replicate 16 (0xAA :: u8)) - 8) 0"
    "drop (length (replicate 16 (0xAA :: u8)) - 8) iv'
       = be64_bytes (push_bit (nat (sint (benbi_shift ?cc))) 3 + 1)"
    using benbi_shift_and_iv[of 1 ?cc "replicate 16 0xAA" 3] g by blast
  have "iv' = take 8 iv' @ drop 8 iv'" by simp
  also have "\<dots> = [0, 0, 0, 0, 0, 0, 0, 0, 0, 0, 0, 0, 0, 0, 0, 97]"
    using c(3,4) v by (simp add: numeral_eq_Suc)
  finally have d: "iv' = [0, 0, 0, 0, 0, 0, 0, 0, 0, 0, 0, 0, 0, 0, 0, 97]" .
  show ?thesis using a b n24 c(1) d by simp
qed


section \<open>The cursors of a conversion\<close>

lemma idx_in_range: "idx < bi_vcnt b \<Longrightarrow> unat idx < length (bi_io_vec b)"
proof -
  assume "idx < bi_vcnt b"
  then have "unat idx < unat (word_of_nat (length (bi_io_vec b)) :: u32)"
    by (simp add: bi_vcnt_def word_less_nat_alt)
  also have "\<dots> \<le> length (bi_io_vec b)" by (simp add: unat_of_nat)
  finally show ?thesis .
qed

lemma idx_succ:
  assumes "idx < (v :: u32)"
  shows "unat (idx + 1) = Suc (unat idx)"
proof -
  have "unat idx < unat v" using assms by (simp add: word_less_nat_alt)
  moreover have "unat v < 2 ^ 32" using unsigned_less[of v] by simp
  ultimately have "unat idx + 1 < 2 ^ 32" by linarith
  then show ?thesis by (simp add: unat_word_ariths)
qed

lemma off_add: "unat (off :: u32) + 512 < 2 ^ 32 \<Longrightarrow> unat (off + 512) = unat off + 512"
  by (simp add: unat_word_ariths)

lemma segs_ok_nth: "segs_ok b \<Longrightarrow> n < length (bi_io_vec b) \<Longrightarrow> unat (bv_len (bi_io_vec b ! n)) + 512 \<le> 2 ^ 32"
  by (simp add: segs_ok_def list_all_length)

lemma sector_step_facts:
  assumes "segments_left bi bo ctx" "segs_ok bi" "segs_ok bo" "cursors_ok ctx"
    and "sector_step bi bo ctx = (sg_out, sg_in, ctx')"
  shows "sg_length sg_in = 512" "sg_length sg_out = 512"
    "sector ctx' = sector ctx" "ctx_write ctx' = ctx_write ctx"
    "bio_in ctx' = bio_in ctx" "bio_out ctx' = bio_out ctx"
    "cursors_ok ctx'" "cursor_measure bi ctx' < cursor_measure bi ctx"
proof -
  let ?bvi = "bi_io_vec bi ! unat (idx_in ctx)"
  let ?bvo = "bi_io_vec bo ! unat (idx_out ctx)"
  have lt: "idx_in ctx < bi_vcnt bi" "idx_out ctx < bi_vcnt bo"
    using assms(1) by (simp_all add: segments_left_def)
  have ri: "unat (idx_in ctx) < length (bi_io_vec bi)" "unat (idx_out ctx) < length (bi_io_vec bo)"
    using lt by (simp_all add: idx_in_range)
  have li: "unat (bv_len ?bvi) + 512 \<le> 2 ^ 32" "unat (bv_len ?bvo) + 512 \<le> 2 ^ 32"
    using segs_ok_nth assms(2,3) ri by blast+
  have oi: "unat (offset_in ctx + 512) = unat (offset_in ctx) + 512"
     "unat (offset_out ctx + 512) = unat (offset_out ctx) + 512"
    using assms(4) by (simp_all add: cursors_ok_def off_add)
  have si: "unat (idx_in ctx + 1) = Suc (unat (idx_in ctx))" using lt(1) by (rule idx_succ)
  have ctx': "ctx' = (let c2 = (if offset_in ctx + 512 \<ge> bv_len ?bvi
                  then ctx\<lparr>offset_in := 0, idx_in := idx_in ctx + 1\<rparr> else ctx\<lparr>offset_in := offset_in ctx + 512\<rparr>)
       in (if offset_out ctx + 512 \<ge> bv_len ?bvo
                  then c2\<lparr>offset_out := 0, idx_out := idx_out ctx + 1\<rparr> else c2\<lparr>offset_out := offset_out ctx + 512\<rparr>))"
    using assms(5) by (auto simp add: sector_step_def Let_def SECTOR_SHIFT_def)
  show "sg_length sg_in = 512" "sg_length sg_out = 512"
    using assms(5) by (auto simp add: sector_step_def Let_def SECTOR_SHIFT_def)
  show "sector ctx' = sector ctx" "ctx_write ctx' = ctx_write ctx"
    "bio_in ctx' = bio_in ctx" "bio_out ctx' = bio_out ctx"
    by (simp_all add: ctx' Let_def)
  show "cursors_ok ctx'"
    using li oi by (auto simp add: ctx' Let_def cursors_ok_def word_le_nat_alt not_le)
  show "cursor_measure bi ctx' < cursor_measure bi ctx"
  proof (cases "offset_in ctx + 512 \<ge> bv_len ?bvi")
    case True
    then have "cursor_measure bi ctx' = (length (bi_io_vec bi) - Suc (unat (idx_in ctx))) * 2 ^ 32 + 2 ^ 32"
      by (simp add: ctx' Let_def cursor_measure_def si)
    also have "\<dots> = Suc (length (bi_io_vec bi) - Suc (unat (idx_in ctx))) * 2 ^ 32"
      by simp
    also have "Suc (length (bi_io_vec bi) - Suc (unat (idx_in ctx)))
        = length (bi_io_vec bi) - unat (idx_in ctx)"
      using ri(1) by simp
    also have "(length (bi_io_vec bi) - unat (idx_in ctx)) * 2 ^ 32 < cursor_measure bi ctx"
      using assms(4) by (simp add: cursor_measure_def cursors_ok_def) arith
    finally show ?thesis .
  next
    case False
    then have "cursor_measure bi ctx' = (length (bi_io_vec bi) - unat (idx_in ctx)) * 2 ^ 32 + (2 ^ 32 - (unat (offset_in ctx) + 512))"
      by (simp add: ctx' Let_def cursor_measure_def oi)
    also have "\<dots> < cursor_measure bi ctx"
      using assms(4) by (simp add: cursor_measure_def cursors_ok_def) arith
    finally show ?thesis .
  qed
qed


section \<open>The synchronous conversion loop\<close>

lemma generator_returns:
  assumes "iv_buffer_ok cc (Some ops)" "length iv = unat (iv_size cc)"
  shows "\<exists>iv'. generator ops cc iv sec = Some (0, iv')"
  using assms
  by (cases ops)
     (auto simp: crypt_iv_plain_gen_def crypt_iv_essiv_gen_def crypt_iv_benbi_gen_def
        crypt_iv_null_gen_def Let_def)

lemma length_stack_iv: "length (stack_iv st cc) = unat (iv_size cc)"
  by (simp add: stack_iv_def)

lemma scatterlist_call:
  assumes "iv_buffer_ok cc (iv_gen_ops cc)"
  shows "crypt_convert_scatterlist env cc out inp len wr sec =
     Returns (blkcipher env \<lparr>call_write = (wr \<noteq> 0), call_iv = fresh_iv env cc sec, call_out = out,
                       call_in = inp, call_len = len, call_sector = sec\<rparr>,
         [\<lparr>call_write = (wr \<noteq> 0), call_iv = fresh_iv env cc sec, call_out = out,
                       call_in = inp, call_len = len, call_sector = sec\<rparr>])"
proof (cases "iv_gen_ops cc")
  case None
  then show ?thesis by (simp add: crypt_convert_scatterlist_def fresh_iv_def Let_def)
next
  case (Some ops)
  with assms obtain iv' where "generator ops cc (stack_iv (stack_bytes env) cc) sec = Some (0, iv')"
    using generator_returns[of cc ops "stack_iv (stack_bytes env) cc" sec] length_stack_iv by auto
  then show ?thesis using Some by (simp add: crypt_convert_scatterlist_def fresh_iv_def Let_def)
qed

lemma sector_chunks_Nil: "sector_chunks env cc wr s []"
  by (simp add: sector_chunks_def)

lemma sector_chunks_Cons:
  "sector_chunks env cc wr s (c # tr) \<longleftrightarrow>
     (call_sector c = s \<and> call_len c = 512 \<and> sg_length (call_in c) = 512
      \<and> sg_length (call_out c) = 512 \<and> call_iv c = fresh_iv env cc s
      \<and> call_write c = (wr \<noteq> 0) \<and> (tr \<noteq> [] \<longrightarrow> \<not> blkcipher env c <s 0))
     \<and> sector_chunks env cc wr (s + 1) tr"
proof -
  have "[0..<Suc (length tr)] = 0 # [Suc 0..<Suc (length tr)]"
    by (rule upt_conv_Cons) simp
  then have u: "[0..<length (c # tr)] = 0 # map Suc [0..<length tr]"
    by (simp only: map_Suc_upt list.size(4)) simp
  show ?thesis
    unfolding sector_chunks_def u
    by (simp add: list.pred_map comp_def add.assoc add.commute[of 1])
qed


lemma crypt_convert_loop_run:
  assumes "bio_in ctx = Some bi" "bio_out ctx = Some bo" "segs_ok bi" "segs_ok bo"
    and "cursors_ok ctx" "iv_buffer_ok cc (iv_gen_ops cc)" "\<not> r <s 0"
  shows "\<exists>r' ctx' tr'. crypt_convert_loop env cc r ctx tr = Some (Returns (r', ctx', tr @ tr'))
      \<and> sector_chunks env cc (ctx_write ctx) (sector ctx) tr'
      \<and> (if r' <s 0
          then tr' \<noteq> [] \<and> r' = blkcipher env (last tr')
               \<and> sector ctx' = sector ctx + word_of_nat (length tr' - 1)
          else sector ctx' = sector ctx + word_of_nat (length tr')
               \<and> \<not> segments_left bi bo ctx'
               \<and> r' = (if tr' = [] then r else blkcipher env (last tr')))"
  using assms
proof (induction "cursor_measure bi ctx" arbitrary: ctx r tr rule: less_induct)
  case less
  note bios = less.prems(1,2)
  show ?case
  proof (cases "segments_left bi bo ctx")
    case False
    then have "crypt_convert_loop env cc r ctx tr = Some (Returns (r, ctx, tr @ []))"
      using bios by (subst crypt_convert_loop.simps) simp
    moreover have "sector_chunks env cc (ctx_write ctx) (sector ctx) []"
      by (rule sector_chunks_Nil)
    ultimately show ?thesis using False less.prems(7) by (intro exI[of _ r] exI[of _ ctx] exI[of _ "[]"]) simp
  next
    case True
    obtain sg_out sg_in ctx1 where st: "sector_step bi bo ctx = (sg_out, sg_in, ctx1)"
      by (cases "sector_step bi bo ctx") auto
    note f = sector_step_facts[OF True less.prems(3,4,5) st]
    let ?call = "\<lparr>call_write = (ctx_write ctx \<noteq> 0), call_iv = fresh_iv env cc (sector ctx),
        call_out = sg_out, call_in = sg_in, call_len = 512, call_sector = sector ctx\<rparr>"
    have sc: "crypt_convert_scatterlist env cc sg_out sg_in (sg_length sg_in) (ctx_write ctx1) (sector ctx1)
        = Returns (blkcipher env ?call, [?call])"
      using scatterlist_call[OF less.prems(6)] f(1,3,4) by simp
    show ?thesis
    proof (cases "blkcipher env ?call <s 0")
      case neg: True
      have "crypt_convert_loop env cc r ctx tr = Some (Returns (blkcipher env ?call, ctx1, tr @ [?call]))"
        using bios True neg by (subst crypt_convert_loop.simps) (simp add: st sc)
      moreover have "sector_chunks env cc (ctx_write ctx) (sector ctx) [?call]"
        using f(1,2) by (simp add: sector_chunks_Cons sector_chunks_Nil)
      ultimately show ?thesis using neg f(3)
        by (intro exI[of _ "blkcipher env ?call"] exI[of _ ctx1] exI[of _ "[?call]"]) simp
    next
      case nonneg: False
      let ?ctx2 = "ctx1\<lparr>sector := sector ctx1 + 1\<rparr>"
      have unf: "crypt_convert_loop env cc r ctx tr
          = crypt_convert_loop env cc (blkcipher env ?call) ?ctx2 (tr @ [?call])"
        using bios True nonneg by (subst crypt_convert_loop.simps) (simp add: st sc)
      have m: "cursor_measure bi ?ctx2 < cursor_measure bi ctx"
        using f(8) by (simp add: cursor_measure_def)
      have p: "bio_in ?ctx2 = Some bi" "bio_out ?ctx2 = Some bo" "cursors_ok ?ctx2"
        using f(5,6,7) bios by (simp_all add: cursors_ok_def)
      from less.hyps[OF m p(1,2) less.prems(3,4) p(3) less.prems(6) nonneg, of "tr @ [?call]"]
      obtain r' ctx' tr' where
        run: "crypt_convert_loop env cc (blkcipher env ?call) ?ctx2 (tr @ [?call])
            = Some (Returns (r', ctx', (tr @ [?call]) @ tr'))"
        and ch: "sector_chunks env cc (ctx_write ?ctx2) (sector ?ctx2) tr'"
        and fin: "if r' <s 0
          then tr' \<noteq> [] \<and> r' = blkcipher env (last tr')
               \<and> sector ctx' = sector ?ctx2 + word_of_nat (length tr' - 1)
          else sector ctx' = sector ?ctx2 + word_of_nat (length tr')
               \<and> \<not> segments_left bi bo ctx'
               \<and> r' = (if tr' = [] then blkcipher env ?call else blkcipher env (last tr'))"
        by blast
      have ch': "sector_chunks env cc (ctx_write ctx) (sector ctx) (?call # tr')"
        using ch f(1,2,3,4) nonneg by (simp add: sector_chunks_Cons)
      have fin': "if r' <s 0
          then ?call # tr' \<noteq> [] \<and> r' = blkcipher env (last (?call # tr'))
               \<and> sector ctx' = sector ctx + word_of_nat (length (?call # tr') - 1)
          else sector ctx' = sector ctx + word_of_nat (length (?call # tr'))
               \<and> \<not> segments_left bi bo ctx'
               \<and> r' = (if ?call # tr' = [] then r else blkcipher env (last (?call # tr')))"
      proof (cases "r' <s 0")
        case True
        with fin have t: "tr' \<noteq> []" "r' = blkcipher env (last tr')"
          "sector ctx' = sector ?ctx2 + word_of_nat (length tr' - 1)" by simp_all
        then obtain n where n: "length tr' = Suc n" by (cases tr') auto
        show ?thesis using True t f(3) n by (simp add: add.assoc add.commute[of 1])
      next
        case False
        with fin show ?thesis using f(3) by (simp add: add.assoc add.commute[of 1])
      qed
      show ?thesis
        using run ch' fin' unfolding unf
        by (intro exI[of _ r'] exI[of _ ctx'] exI[of _ "?call # tr'"]) simp
    qed
  qed
qed


text \<open>
  Claim C3, as the claim states it, fails on a target without IV generator (\<open>aes-ecb\<close>):
  the conversion of a two-sector bio calls the cipher for sectors 100 and 101 and
  generates no IV for either.
\<close>

theorem crypt_convert_no_iv_counterexample:
  "iv_gen_ops example_ecb_config = None
   \<and> map_option (\<lambda>(r, c, tr). (r, sector c, map call_sector tr, map call_iv tr))
       (Option.bind
         (crypt_convert example_sync_env example_ecb_config
           (crypt_convert_init example_ecb_config (Some example_bio) (Some example_bio) 0 1))
         result_of)
     = Some (0, 102, [100, 101], [None, None])"
  by code_simp

text \<open>
  Claim C3, amended. \<open>crypt_convert_init\<close> sets the running sector to the request's
  sector plus the target's \<open>iv_offset\<close>. On well-formed bios the conversion loop ends,
  and it makes one cipher call per turn, each on one 512-byte chunk of source and of
  destination and for the current sector, which grows by one after each chunk that
  succeeded. The call carries a fresh IV, generated for that sector, when the target has
  an IV generator, and no IV when it has none. The loop ends when the segments of either
  bio are exhausted, or at the first chunk for which the cipher returns a negative error,
  which is then returned with the sector left at the failing chunk.
\<close>

theorem crypt_convert_sector_by_sector:
  assumes "segs_ok bi" and "segs_ok bo" and "iv_buffer_ok cc (iv_gen_ops cc)"
  shows "sector (crypt_convert_init cc (Some bo) (Some bi) sec wr) = sec + iv_offset cc
    \<and> (\<exists>r ctx' tr.
         crypt_convert env cc (crypt_convert_init cc (Some bo) (Some bi) sec wr)
           = Some (Returns (r, ctx', tr))
         \<and> sector_chunks env cc wr (sec + iv_offset cc) tr
         \<and> (\<forall>k < length tr.
               call_iv (tr ! k) =
                 (case iv_gen_ops cc of
                    None \<Rightarrow> None
                  | Some ops \<Rightarrow> map_option snd
                      (generator ops cc (stack_iv (stack_bytes env) cc)
                         (sec + iv_offset cc + word_of_nat k)))
               \<and> (\<forall>ops. iv_gen_ops cc = Some ops \<longrightarrow> call_iv (tr ! k) \<noteq> None))
         \<and> (if r <s 0
             then tr \<noteq> [] \<and> r = blkcipher env (last tr)
                  \<and> sector ctx' = sec + iv_offset cc + word_of_nat (length tr - 1)
             else sector ctx' = sec + iv_offset cc + word_of_nat (length tr)
                  \<and> \<not> segments_left bi bo ctx'
                  \<and> r = (if tr = [] then 0 else blkcipher env (last tr))))"
proof -
  let ?ctx = "crypt_convert_init cc (Some bo) (Some bi) sec wr"
  have i: "bio_in ?ctx = Some bi" "bio_out ?ctx = Some bo" "cursors_ok ?ctx"
    "sector ?ctx = sec + iv_offset cc" "ctx_write ?ctx = wr"
    by (simp_all add: crypt_convert_init_def cursors_ok_def)
  have z: "\<not> (0 :: c_int) <s 0" by simp
  from crypt_convert_loop_run[OF i(1,2) assms(1,2) i(3) assms(3) z, of env "[]"]
  obtain r ctx' tr where
    run: "crypt_convert env cc ?ctx = Some (Returns (r, ctx', tr))"
    and ch: "sector_chunks env cc wr (sec + iv_offset cc) tr"
    and fin: "if r <s 0
             then tr \<noteq> [] \<and> r = blkcipher env (last tr)
                  \<and> sector ctx' = sec + iv_offset cc + word_of_nat (length tr - 1)
             else sector ctx' = sec + iv_offset cc + word_of_nat (length tr)
                  \<and> \<not> segments_left bi bo ctx'
                  \<and> r = (if tr = [] then 0 else blkcipher env (last tr))"
    unfolding crypt_convert_def i(4,5) by auto
  have ivs: "call_iv (tr ! k) =
                 (case iv_gen_ops cc of
                    None \<Rightarrow> None
                  | Some ops \<Rightarrow> map_option snd
                      (generator ops cc (stack_iv (stack_bytes env) cc)
                         (sec + iv_offset cc + word_of_nat k)))
               \<and> (\<forall>ops. iv_gen_ops cc = Some ops \<longrightarrow> call_iv (tr ! k) \<noteq> None)"
    if "k < length tr" for k
  proof -
    have c: "call_iv (tr ! k) = fresh_iv env cc (sec + iv_offset cc + word_of_nat k)"
      using ch that by (simp add: sector_chunks_def list_all_iff)
    have "fresh_iv env cc s \<noteq> None" if "iv_gen_ops cc = Some ops" for ops s
      using generator_returns[of cc ops "stack_iv (stack_bytes env) cc" s] assms(3) that
      by (auto simp: fresh_iv_def length_stack_iv)
    then show ?thesis using c by (simp add: fresh_iv_def)
  qed
  show ?thesis
    using i(4) run ch ivs fin by blast
qed


lemma replicate_12: "replicate 12 (0 :: u8) = [0, 0, 0, 0, 0, 0, 0, 0, 0, 0, 0, 0]"
  by (simp add: numeral_eq_Suc)

lemma example_plain_iv: "fresh_iv example_sync_env example_plain_config s = Some (le32_bytes (ucast (s AND 0xffffffff)) @ [0, 0, 0, 0, 0, 0, 0, 0, 0, 0, 0, 0])"
  by (simp add: fresh_iv_def example_plain_config_def example_sync_env_def crypt_iv_plain_gen_def stack_iv_def
    kzalloc_config_def put_bytes_def memset_buf_def le32_bytes_def upt_rec replicate_12)

lemma example_le32: "le32_bytes 108 = [108, 0, 0, 0]"  "le32_bytes 109 = [109, 0, 0, 0]"
  by (simp_all add: le32_bytes_def upt_rec)

lemma example_plain_call: "crypt_convert_scatterlist example_sync_env example_plain_config out inp len wr sec =
     Returns (blkcipher example_sync_env \<lparr>call_write = (wr \<noteq> 0), call_iv = fresh_iv example_sync_env example_plain_config sec, call_out = out,
                       call_in = inp, call_len = len, call_sector = sec\<rparr>,
         [\<lparr>call_write = (wr \<noteq> 0), call_iv = fresh_iv example_sync_env example_plain_config sec, call_out = out,
                       call_in = inp, call_len = len, call_sector = sec\<rparr>])"
  by (rule scatterlist_call) (simp add: example_plain_config_def)

lemma example_plain_offset: "iv_offset example_plain_config = 100"
  by (simp add: example_plain_config_def)

lemma example_cipher: "blkcipher example_sync_env c = (if call_sector c = 109 then - EIO else 0)"
  by (simp add: example_sync_env_def)

lemma example_plain_run: "map_option (\<lambda>(r, c, tr). (r, sector c, map call_sector tr, map call_iv tr))
       (Option.bind
         (crypt_convert example_sync_env example_plain_config
           (crypt_convert_init example_plain_config (Some example_bio) (Some example_bio) 8 1))
         result_of)
     = Some (- EIO, 109, [108, 109],
             [Some [108, 0, 0, 0, 0, 0, 0, 0, 0, 0, 0, 0, 0, 0, 0, 0],
              Some [109, 0, 0, 0, 0, 0, 0, 0, 0, 0, 0, 0, 0, 0, 0, 0]])"
  apply (simp add: crypt_convert_def crypt_convert_init_def example_bio_def example_plain_offset)
  apply (subst crypt_convert_loop.simps)
  apply (simp add: segments_left_def bi_vcnt_def sector_step_def Let_def SECTOR_SHIFT_def example_plain_call example_plain_iv example_le32 example_cipher errno_negative)
  apply (subst crypt_convert_loop.simps)
  apply (simp add: segments_left_def bi_vcnt_def sector_step_def Let_def SECTOR_SHIFT_def example_plain_call example_plain_iv example_le32 example_cipher errno_negative)
  done


lemma ex3_conj12:
  "\<exists>r c t. P r c t \<and> Q r c t \<and> R r c t \<Longrightarrow> \<exists>r c t. P r c t \<and> Q r c t"
  by blast

theorem crypt_convert_sector_by_sector_witness:
  "segs_ok example_bio
   \<and> iv_buffer_ok example_plain_config (iv_gen_ops example_plain_config)
   \<and> (\<exists>r ctx' tr.
         crypt_convert example_sync_env example_plain_config
           (crypt_convert_init example_plain_config (Some example_bio) (Some example_bio) 8 1)
           = Some (Returns (r, ctx', tr))
         \<and> sector_chunks example_sync_env example_plain_config 1 108 tr)
   \<and> map_option (\<lambda>(r, c, tr). (r, sector c, map call_sector tr, map call_iv tr))
       (Option.bind
         (crypt_convert example_sync_env example_plain_config
           (crypt_convert_init example_plain_config (Some example_bio) (Some example_bio) 8 1))
         result_of)
     = Some (- EIO, 109, [108, 109],
             [Some [108, 0, 0, 0, 0, 0, 0, 0, 0, 0, 0, 0, 0, 0, 0, 0],
              Some [109, 0, 0, 0, 0, 0, 0, 0, 0, 0, 0, 0, 0, 0, 0, 0]])"
proof -
  have h: "segs_ok example_bio"
    "iv_buffer_ok example_plain_config (iv_gen_ops example_plain_config)"
    by (simp_all add: segs_ok_def example_bio_def example_plain_config_def)
  have o: "(8 :: sector_t) + iv_offset example_plain_config = 108"
    by (simp add: example_plain_offset)
  note t = crypt_convert_sector_by_sector[OF h(1) h(1) h(2), of 8 1 example_sync_env]
  have "\<exists>r ctx' tr.
         crypt_convert example_sync_env example_plain_config
           (crypt_convert_init example_plain_config (Some example_bio) (Some example_bio) 8 1)
           = Some (Returns (r, ctx', tr))
         \<and> sector_chunks example_sync_env example_plain_config 1
              (8 + iv_offset example_plain_config) tr"
    by (rule ex3_conj12[OF t[THEN conjunct2]])
  then have x: "\<exists>r ctx' tr.
         crypt_convert example_sync_env example_plain_config
           (crypt_convert_init example_plain_config (Some example_bio) (Some example_bio) 8 1)
           = Some (Returns (r, ctx', tr))
         \<and> sector_chunks example_sync_env example_plain_config 1 108 tr"
    by (simp only: o)
  show ?thesis
    by (intro conjI h x example_plain_run)
qed


section \<open>The OCF conversion primitive\<close>

lemma memcpy_same: "memcpy m a a n = m"
  by (auto simp: memcpy_def fun_eq_iff)

lemma mem_read_memcpy: "mem_read (memcpy m dst src n) dst n = mem_read m src n"
  by (simp add: mem_read_def memcpy_def list_eq_iff_nth_eq)

lemma dm_ocf_process_results:
  "fst (dm_ocf_process env cc st out inp len iv ivs wr priv) = 0
   \<or> fst (dm_ocf_process env cc st out inp len iv ivs wr priv) <s 0"
  by (auto simp: dm_ocf_process_def Let_def errno_negative split: option.splits)

lemma dm_ocf_process_ok:
  assumes "getreq_ok env (getreq_calls st)"
  shows "fst (dm_ocf_process env cc st out inp len (Some iv) ivs wr priv) = 0"
  using assms by (simp add: dm_ocf_process_def Let_def)

text \<open>
  Claim C5. Whenever \<open>dm_ocf_process\<close> dispatches a request (it returns 0), the request's
  buffer is the destination, and at dispatch the destination holds what the source held
  on entry, in every case: memory is as if the source had been copied to the destination,
  which for identical buffers changes nothing and for different buffers is the copy the
  code makes.
\<close>

theorem dm_ocf_process_dispatches_source:
  assumes "dm_ocf_process env cc st out inp len iv ivs wr priv = (0, st')"
  shows "(\<exists>crp. dispatched st' = dispatched st @ [crp] \<and> crp_buf crp = sg_virt out
            \<and> crp_ilen crp = len
            \<and> mem_read (mem st') (crp_buf crp) (unat len)
                = mem_read (mem st) (sg_virt inp) (unat len))
    \<and> mem st' = memcpy (mem st) (sg_virt out) (sg_virt inp) (unat len)
    \<and> (sg_virt out = sg_virt inp \<longrightarrow> mem st' = mem st)"
proof -
  from assms obtain ivb where iv: "iv = Some ivb"
    by (cases iv) (auto simp: dm_ocf_process_def EPERM_def)
  from assms iv have ok: "getreq_ok env (getreq_calls st)"
    by (auto simp: dm_ocf_process_def ENOMEM_def split: if_splits)
  have m: "mem st' = memcpy (mem st) (sg_virt out) (sg_virt inp) (unat len)"
    using assms iv ok by (auto simp: dm_ocf_process_def Let_def memcpy_same)
  have d: "\<exists>crp. dispatched st' = dispatched st @ [crp] \<and> crp_buf crp = sg_virt out
            \<and> crp_ilen crp = len"
    using assms iv ok by (auto simp: dm_ocf_process_def Let_def)
  show ?thesis
    using d m by (auto simp: mem_read_memcpy memcpy_same)
qed

theorem dm_ocf_process_dispatches_source_witness:
  "dm_ocf_process (example_ocf_env 0) example_ocf_config example_ocf_state
       \<lparr>sg_page = 8192, sg_offset = 0, sg_length = 512\<rparr>
       \<lparr>sg_page = 4096, sg_offset = 512, sg_length = 512\<rparr> 512
       (Some (replicate 16 0)) 16 1 Opaque_wr_priv
     = (0, snd (dm_ocf_process (example_ocf_env 0) example_ocf_config example_ocf_state
       \<lparr>sg_page = 8192, sg_offset = 0, sg_length = 512\<rparr>
       \<lparr>sg_page = 4096, sg_offset = 512, sg_length = 512\<rparr> 512
       (Some (replicate 16 0)) 16 1 Opaque_wr_priv))
   \<and> mem example_ocf_state 8192 = 16 \<and> mem example_ocf_state 4608 = 9
   \<and> mem (snd (dm_ocf_process (example_ocf_env 0) example_ocf_config example_ocf_state
       \<lparr>sg_page = 8192, sg_offset = 0, sg_length = 512\<rparr>
       \<lparr>sg_page = 4096, sg_offset = 512, sg_length = 512\<rparr> 512
       (Some (replicate 16 0)) 16 1 Opaque_wr_priv)) 8192 = 9
   \<and> mem_read (mem (snd (dm_ocf_process (example_ocf_env 0) example_ocf_config example_ocf_state
       \<lparr>sg_page = 8192, sg_offset = 0, sg_length = 512\<rparr>
       \<lparr>sg_page = 4096, sg_offset = 512, sg_length = 512\<rparr> 512
       (Some (replicate 16 0)) 16 1 Opaque_wr_priv))) 8192 512
     = mem_read (mem example_ocf_state) 4608 512"
proof -
  let ?out = "\<lparr>sg_page = 8192, sg_offset = 0, sg_length = 512\<rparr>"
  let ?in = "\<lparr>sg_page = 4096, sg_offset = 512, sg_length = 512\<rparr>"
  let ?res = "dm_ocf_process (example_ocf_env 0) example_ocf_config example_ocf_state
       ?out ?in 512 (Some (replicate 16 0)) 16 1 Opaque_wr_priv"
  have "fst ?res = 0"
    by (rule dm_ocf_process_ok) (simp add: example_ocf_env_def)
  then have h: "?res = (0, snd ?res)" by (metis prod.collapse)
  have v: "sg_virt ?out = 8192" "sg_virt ?in = 4608" "unat (512 :: u32) = 512"
    by (simp_all add: sg_virt_def)
  note t = dm_ocf_process_dispatches_source[OF h]
  have m: "mem (snd ?res) = memcpy (mem example_ocf_state) 8192 4608 512"
    using t[THEN conjunct2, THEN conjunct1] unfolding v .
  obtain crp :: cryptop where c: "crp_buf crp = sg_virt ?out"
    "mem_read (mem (snd ?res)) (crp_buf crp) (unat (512 :: u32))
       = mem_read (mem example_ocf_state) (sg_virt ?in) (unat (512 :: u32))"
    using t[THEN conjunct1] by auto
  have r: "mem_read (mem (snd ?res)) 8192 512 = mem_read (mem example_ocf_state) 4608 512"
    using c unfolding v by simp
  have e: "mem example_ocf_state 8192 = 16" "mem example_ocf_state 4608 = 9"
    by (simp_all add: example_ocf_state_def)
  have "mem (snd ?res) 8192 = 9"
    unfolding m by (simp add: memcpy_def e)
  with h r e show ?thesis by simp
qed


section \<open>The OCF conversion loop\<close>

lemma ocf_scatterlist_run:
  assumes "iv_buffer_ok cc (iv_gen_ops cc)"
  shows "\<exists>r st1.
      (\<forall>c. ocf_crypt_convert_scatterlist (env\<lparr>wr_completed := c\<rparr>) cc st out inp len wr sec priv
             = Returns (r, st1))
      \<and> (r = 0 \<or> r <s 0)
      \<and> length (dispatched st) \<le> length (dispatched st1)
      \<and> (iv_gen_ops cc \<noteq> None \<and> getreq_ok env (getreq_calls st) \<longrightarrow>
            r = 0 \<and> length (dispatched st1) = Suc (length (dispatched st)))"
proof (cases "iv_gen_ops cc")
  case None
  then show ?thesis
    by (simp add: ocf_crypt_convert_scatterlist_def dm_ocf_process_def errno_negative)
next
  case (Some ops)
  with assms obtain iv' where g: "generator ops cc (stack_iv (ocf_stack_bytes env) cc) sec = Some (0, iv')"
    using generator_returns[of cc ops "stack_iv (ocf_stack_bytes env) cc" sec] length_stack_iv by auto
  show ?thesis
    using Some g
    by (cases "getreq_ok env (getreq_calls st)")
       (simp_all add: ocf_crypt_convert_scatterlist_def dm_ocf_process_def Let_def errno_negative)
qed

lemma ocf_submit_run:
  assumes "iv_buffer_ok cc (iv_gen_ops cc)" "ctx_write ctx \<noteq> 0"
  shows "\<exists>r st1.
      (\<forall>c. ocf_submit (env\<lparr>wr_completed := c\<rparr>) cc st bi bo ctx num priv sg_out sg_in
             = Returns (r, num + 1, priv, st1))
      \<and> (r = 0 \<or> r <s 0)
      \<and> length (dispatched st) \<le> length (dispatched st1)
      \<and> (iv_gen_ops cc \<noteq> None \<and> getreq_ok env (getreq_calls st) \<longrightarrow>
            r = 0 \<and> length (dispatched st1) = Suc (length (dispatched st)))"
proof -
  from ocf_scatterlist_run[OF assms(1), of env st sg_out sg_in "sg_length sg_in" "ctx_write ctx" "sector ctx" priv]
  obtain r st1 where
    a: "\<forall>c. ocf_crypt_convert_scatterlist (env\<lparr>wr_completed := c\<rparr>) cc st sg_out sg_in
             (sg_length sg_in) (ctx_write ctx) (sector ctx) priv = Returns (r, st1)"
    and b: "r = 0 \<or> r <s 0" "length (dispatched st) \<le> length (dispatched st1)"
      "iv_gen_ops cc \<noteq> None \<and> getreq_ok env (getreq_calls st) \<longrightarrow>
            r = 0 \<and> length (dispatched st1) = Suc (length (dispatched st))"
    by blast
  have "\<forall>c. ocf_submit (env\<lparr>wr_completed := c\<rparr>) cc st bi bo ctx num priv sg_out sg_in
             = Returns (r, num + 1, priv, st1)"
    using a assms(2) by (simp add: ocf_submit_def Let_def)
  with b show ?thesis by blast
qed


lemma ocf_convert_loop_run:
  assumes "bio_in ctx = Some bi" "bio_out ctx = Some bo" "segs_ok bi" "segs_ok bo"
    and "cursors_ok ctx" "iv_buffer_ok cc (iv_gen_ops cc)" "ctx_write ctx \<noteq> 0"
  shows "\<exists>r' num' ctx' st'.
      (\<forall>c. ocf_convert_loop (env\<lparr>wr_completed := c\<rparr>) cc 0 num priv ctx st
             = Some (Returns (r', num', ctx', st')))
      \<and> (r' = 0 \<or> r' <s 0) \<and> ctx_write ctx' = ctx_write ctx
      \<and> length (dispatched st) \<le> length (dispatched st')
      \<and> (iv_gen_ops cc \<noteq> None \<and> (\<forall>k. getreq_ok env k) \<longrightarrow>
            r' = 0 \<and> \<not> segments_left bi bo ctx'
            \<and> num' = num + word_of_nat (length (dispatched st') - length (dispatched st)))"
  using assms
proof (induction "cursor_measure bi ctx" arbitrary: ctx num st rule: less_induct)
  case less
  note bios = less.prems(1,2)
  show ?case
  proof (cases "segments_left bi bo ctx")
    case False
    then have "\<forall>c. ocf_convert_loop (env\<lparr>wr_completed := c\<rparr>) cc 0 num priv ctx st
        = Some (Returns (0, num, ctx, st))"
      using bios by (subst ocf_convert_loop.simps) simp
    then show ?thesis using False
      by (rule_tac x = 0 in exI, rule_tac x = num in exI, rule_tac x = ctx in exI,
          rule_tac x = st in exI) simp
  next
    case True
    obtain sg_out sg_in ctx1 where st: "sector_step bi bo ctx = (sg_out, sg_in, ctx1)"
      by (cases "sector_step bi bo ctx") auto
    note f = sector_step_facts[OF True less.prems(3,4,5) st]
    have w1: "ctx_write ctx1 \<noteq> 0" using f(4) less.prems(7) by simp
    from ocf_submit_run[OF less.prems(6) w1, of env st bi bo num priv sg_out sg_in]
    obtain r1 st1 where
      sub: "\<forall>c. ocf_submit (env\<lparr>wr_completed := c\<rparr>) cc st bi bo ctx1 num priv sg_out sg_in
             = Returns (r1, num + 1, priv, st1)"
      and r1: "r1 = 0 \<or> r1 <s 0"
      and d1: "length (dispatched st) \<le> length (dispatched st1)"
      and ok1: "iv_gen_ops cc \<noteq> None \<and> getreq_ok env (getreq_calls st) \<longrightarrow>
            r1 = 0 \<and> length (dispatched st1) = Suc (length (dispatched st))"
      by blast
    show ?thesis
    proof (cases "r1 <s 0")
      case neg: True
      have "\<forall>c. ocf_convert_loop (env\<lparr>wr_completed := c\<rparr>) cc 0 num priv ctx st
          = Some (Returns (r1, num + 1, ctx1, st1))"
        using bios True neg sub by (subst ocf_convert_loop.simps) (simp add: st)
      moreover have "\<not> (iv_gen_ops cc \<noteq> None \<and> (\<forall>k. getreq_ok env k))"
        using ok1 neg by auto
      ultimately show ?thesis using neg f(4) d1
        by (rule_tac x = r1 in exI, rule_tac x = "num + 1" in exI, rule_tac x = ctx1 in exI,
            rule_tac x = st1 in exI) auto
    next
      case nonneg: False
      with r1 have z: "r1 = 0" by simp
      let ?ctx2 = "ctx1\<lparr>sector := sector ctx1 + 1\<rparr>"
      have unf: "ocf_convert_loop (env\<lparr>wr_completed := c\<rparr>) cc 0 num priv ctx st
          = ocf_convert_loop (env\<lparr>wr_completed := c\<rparr>) cc 0 (num + 1) priv ?ctx2 st1" for c
        using bios True sub z by (subst ocf_convert_loop.simps) (simp add: st)
      have m: "cursor_measure bi ?ctx2 < cursor_measure bi ctx"
        using f(8) by (simp add: cursor_measure_def)
      have p: "bio_in ?ctx2 = Some bi" "bio_out ?ctx2 = Some bo" "cursors_ok ?ctx2"
        "ctx_write ?ctx2 \<noteq> 0"
        using f(5,6,7) bios w1 by (simp_all add: cursors_ok_def)
      from less.hyps[OF m p(1,2) less.prems(3,4) p(3) less.prems(6) p(4), of "num + 1" st1]
      obtain r' num' ctx' st' where
        run: "\<forall>c. ocf_convert_loop (env\<lparr>wr_completed := c\<rparr>) cc 0 (num + 1) priv ?ctx2 st1
             = Some (Returns (r', num', ctx', st'))"
        and r': "r' = 0 \<or> r' <s 0" and w': "ctx_write ctx' = ctx_write ?ctx2"
        and d': "length (dispatched st1) \<le> length (dispatched st')"
        and ok': "iv_gen_ops cc \<noteq> None \<and> (\<forall>k. getreq_ok env k) \<longrightarrow>
            r' = 0 \<and> \<not> segments_left bi bo ctx'
            \<and> num' = num + 1 + word_of_nat (length (dispatched st') - length (dispatched st1))"
        by blast
      have cnt: "num' = num + word_of_nat (length (dispatched st') - length (dispatched st))"
        if a: "iv_gen_ops cc \<noteq> None \<and> (\<forall>k. getreq_ok env k)"
      proof -
        from ok1 a have l: "length (dispatched st1) = Suc (length (dispatched st))" by simp
        then have "length (dispatched st') - length (dispatched st)
            = Suc (length (dispatched st') - length (dispatched st1))"
          using d' by simp
        then show ?thesis using ok' a by simp
      qed
      have "\<forall>c. ocf_convert_loop (env\<lparr>wr_completed := c\<rparr>) cc 0 num priv ctx st
             = Some (Returns (r', num', ctx', st'))"
        using run unf by simp
      then show ?thesis
        using r' w' f(4) d1 d' ok' cnt
        by (rule_tac x = r' in exI, rule_tac x = num' in exI, rule_tac x = ctx' in exI,
            rule_tac x = st' in exI) simp
    qed
  qed
qed


text \<open>
  Claim C2, as the claim states it, fails: a write of two sectors is submitted in full, no
  completion arrives before the wait ends (\<open>dm_ocf_wr_completed\<close> is 0, not 2), the
  timeout is logged, and the conversion returns 0, which is not negative.
\<close>

theorem ocf_write_timeout_counterexample:
  "map_option (\<lambda>(r, c, s, timed_out). (r, timed_out, map crp_buf (dispatched s)))
     (Option.bind
       (ocf_crypt_convert (example_ocf_env 0) example_ocf_config example_ocf_state
         (crypt_convert_init example_ocf_config (Some example_clone) (Some example_bio) 8 1))
       result_of)
     = Some (0, True, [8192, 8704])
   \<and> \<not> (0 :: c_int) <s 0"
  by code_simp

text \<open>
  Claim C2, amended. A writing conversion on the OCF backend, on well-formed bios, ends and
  returns the result of its submission loop whatever the wait yields: the return value, the
  context and the state are the same for every number of completions that have arrived
  when the wait ends, and only the logging of the timeout depends on it. The result is 0
  or negative; when every sector was submitted (the target has an IV generator and every
  \<open>crypto_getreq\<close> succeeds) it is 0, also when the 30 seconds elapse with completions
  outstanding.
\<close>

theorem ocf_write_timeout_only_logs:
  assumes "segs_ok bi" and "segs_ok bo" and "iv_buffer_ok cc (iv_gen_ops cc)"
    and "wr \<noteq> 0" and "wr_priv_alloc_ok env"
  shows "\<exists>r ctx' st' n.
      (\<forall>c. ocf_crypt_convert (env\<lparr>wr_completed := c\<rparr>) cc st
              (crypt_convert_init cc (Some bo) (Some bi) sec wr)
            = Some (Returns (r, ctx', st', n \<noteq> c)))
      \<and> (r = 0 \<or> r <s 0)
      \<and> (iv_gen_ops cc \<noteq> None \<and> (\<forall>k. getreq_ok env k) \<longrightarrow>
            r = 0 \<and> \<not> segments_left bi bo ctx'
            \<and> n = word_of_nat (length (dispatched st') - length (dispatched st)))"
proof -
  let ?ctx = "crypt_convert_init cc (Some bo) (Some bi) sec wr"
  have i: "bio_in ?ctx = Some bi" "bio_out ?ctx = Some bo" "cursors_ok ?ctx"
    "ctx_write ?ctx \<noteq> 0"
    using assms(4) by (simp_all add: crypt_convert_init_def cursors_ok_def)
  from ocf_convert_loop_run[OF i(1,2) assms(1,2) i(3) assms(3) i(4), of env 0 Opaque_wr_priv st]
  obtain r num ctx' st' where
    run: "\<forall>c. ocf_convert_loop (env\<lparr>wr_completed := c\<rparr>) cc 0 0 Opaque_wr_priv ?ctx st
             = Some (Returns (r, num, ctx', st'))"
    and r: "r = 0 \<or> r <s 0" and w: "ctx_write ctx' = ctx_write ?ctx"
    and ok: "iv_gen_ops cc \<noteq> None \<and> (\<forall>k. getreq_ok env k) \<longrightarrow>
            r = 0 \<and> \<not> segments_left bi bo ctx'
            \<and> num = 0 + word_of_nat (length (dispatched st') - length (dispatched st))"
    by blast
  have "\<forall>c. ocf_crypt_convert (env\<lparr>wr_completed := c\<rparr>) cc st ?ctx
            = Some (Returns (r, ctx', st', num \<noteq> c))"
    using run i(4) w assms(5) by (simp add: ocf_crypt_convert_def)
  then show ?thesis using r ok
    by (rule_tac x = r in exI, rule_tac x = ctx' in exI, rule_tac x = st' in exI,
        rule_tac x = num in exI) simp
qed

lemma ex4_conj1:
  "\<exists>r c s n. P r c s n \<and> Q r c s n \<Longrightarrow> \<exists>r c s n. P r c s n"
  by blast

theorem ocf_write_timeout_only_logs_witness:
  "segs_ok example_bio \<and> segs_ok example_clone
   \<and> iv_buffer_ok example_ocf_config (iv_gen_ops example_ocf_config)
   \<and> wr_priv_alloc_ok (example_ocf_env 2)
   \<and> (\<exists>r ctx' st' n. \<forall>c.
         ocf_crypt_convert ((example_ocf_env 2)\<lparr>wr_completed := c\<rparr>) example_ocf_config
           example_ocf_state
           (crypt_convert_init example_ocf_config (Some example_clone) (Some example_bio) 8 1)
         = Some (Returns (r, ctx', st', n \<noteq> c)))
   \<and> map_option (\<lambda>(r, c, s, timed_out). (r, timed_out, map crp_buf (dispatched s)))
       (Option.bind
         (ocf_crypt_convert (example_ocf_env 2) example_ocf_config example_ocf_state
           (crypt_convert_init example_ocf_config (Some example_clone) (Some example_bio) 8 1))
         result_of)
     = Some (0, False, [8192, 8704])"
proof -
  have h: "segs_ok example_bio" "segs_ok example_clone"
    "iv_buffer_ok example_ocf_config (iv_gen_ops example_ocf_config)"
    "(1 :: c_int) \<noteq> 0" "wr_priv_alloc_ok (example_ocf_env 2)"
    by (simp_all add: segs_ok_def example_bio_def example_clone_def example_ocf_config_def
        example_ocf_env_def)
  have x: "\<exists>r ctx' st' n. \<forall>c.
         ocf_crypt_convert ((example_ocf_env 2)\<lparr>wr_completed := c\<rparr>) example_ocf_config
           example_ocf_state
           (crypt_convert_init example_ocf_config (Some example_clone) (Some example_bio) 8 1)
         = Some (Returns (r, ctx', st', n \<noteq> c))"
    by (rule ex4_conj1[OF ocf_write_timeout_only_logs[OF h(1,2,3,4,5), of example_ocf_state 8]])
  have e: "map_option (\<lambda>(r, c, s, timed_out). (r, timed_out, map crp_buf (dispatched s)))
       (Option.bind
         (ocf_crypt_convert (example_ocf_env 2) example_ocf_config example_ocf_state
           (crypt_convert_init example_ocf_config (Some example_clone) (Some example_bio) 8 1))
         result_of)
     = Some (0, False, [8192, 8704])"
    by code_simp
  show ?thesis by (intro conjI h(1,2,3,5) x e)
qed


section \<open>Construction of a target\<close>

lemma backend_keeps:
  assumes "crypt_ctr_backend env c m cc = Inr cc'"
  shows "flags cc' = flags cc" "key_size cc' = key_size cc" "key cc' = key cc"
    "key_alloc cc' = key_alloc cc" "chainmode cc' = m" "cipher cc' = c"
  using assms
  by (auto simp: crypt_ctr_backend_def Let_def split: if_splits option.splits)

lemma essiv_ctr_keeps:
  assumes "crypt_iv_essiv_ctr env cc opts sz = (r, msg, cc')"
  shows "flags cc' = flags cc" "key_size cc' = key_size cc" "key cc' = key cc"
    "key_alloc cc' = key_alloc cc" "chainmode cc' = chainmode cc" "cipher cc' = cipher cc"
    "iv_gen_ops cc' = iv_gen_ops cc"
  using assms
  by (auto simp: crypt_iv_essiv_ctr_def split: option.splits sum.splits if_splits prod.splits)

lemma benbi_ctr_keeps:
  assumes "crypt_iv_benbi_ctr cc bs = Some (r, msg, cc')"
  shows "flags cc' = flags cc" "key_size cc' = key_size cc" "key cc' = key cc"
    "key_alloc cc' = key_alloc cc" "chainmode cc' = chainmode cc" "cipher cc' = cipher cc"
    "iv_gen_ops cc' = iv_gen_ops cc"
  using assms
  by (auto simp: crypt_iv_benbi_ctr_def Let_def split: if_splits)

lemma iv_ctr_keeps:
  assumes "iv_ctr env cc opts sz = Some (r, msg, cc')"
  shows "flags cc' = flags cc" "key_size cc' = key_size cc" "key cc' = key cc"
    "key_alloc cc' = key_alloc cc" "chainmode cc' = chainmode cc" "cipher cc' = cipher cc"
    "iv_gen_ops cc' = iv_gen_ops cc"
proof -
  consider (essiv) "iv_gen_ops cc = Some Essiv_ops" | (benbi) "iv_gen_ops cc = Some Benbi_ops"
    | (other) "iv_gen_ops cc \<noteq> Some Essiv_ops" "iv_gen_ops cc \<noteq> Some Benbi_ops" by blast
  then have "flags cc' = flags cc \<and> key_size cc' = key_size cc \<and> key cc' = key cc
    \<and> key_alloc cc' = key_alloc cc \<and> chainmode cc' = chainmode cc \<and> cipher cc' = cipher cc
    \<and> iv_gen_ops cc' = iv_gen_ops cc"
  proof cases
    case essiv
    with assms have "crypt_iv_essiv_ctr env cc opts sz = (r, msg, cc')" by (simp add: iv_ctr_def)
    from essiv_ctr_keeps[OF this] show ?thesis by simp
  next
    case benbi
    with assms obtain bs where "crypt_iv_benbi_ctr cc bs = Some (r, msg, cc')"
      by (auto simp: iv_ctr_def split: option.splits)
    from benbi_ctr_keeps[OF this] show ?thesis by simp
  next
    case other
    with assms have "cc' = cc"
      by (cases "iv_gen_ops cc"; cases "the (iv_gen_ops cc)") (auto simp: iv_ctr_def)
    then show ?thesis by simp
  qed
  then show "flags cc' = flags cc" "key_size cc' = key_size cc" "key cc' = key cc"
    "key_alloc cc' = key_alloc cc" "chainmode cc' = chainmode cc" "cipher cc' = cipher cc"
    "iv_gen_ops cc' = iv_gen_ops cc" by simp_all
qed

lemma ctr_iv_keeps:
  assumes "crypt_ctr_iv env ivmode ivopts cc = Some (Inr cc')"
  shows "flags cc' = flags cc" "key_size cc' = key_size cc" "key cc' = key cc"
    "key_alloc cc' = key_alloc cc" "chainmode cc' = chainmode cc" "cipher cc' = cipher cc"
    "iv_gen_ops cc' \<noteq> None \<longrightarrow> choose_iv_ops (ocf_build env) ivmode = Inr (iv_gen_ops cc')"
proof -
  from assms obtain ops where ch: "choose_iv_ops (ocf_build env) ivmode = Inr ops"
    by (cases "choose_iv_ops (ocf_build env) ivmode") (auto simp: crypt_ctr_iv_def)
  from assms ch obtain cc1 sz r msg cc2 where c: "iv_ctr env cc1 ivopts sz = Some (r, msg, cc2)"
    and c1: "flags cc1 = flags cc \<and> key_size cc1 = key_size cc \<and> key cc1 = key cc
      \<and> key_alloc cc1 = key_alloc cc \<and> chainmode cc1 = chainmode cc \<and> cipher cc1 = cipher cc
      \<and> iv_gen_ops cc1 = ops"
    and res: "flags cc' = flags cc2 \<and> key_size cc' = key_size cc2 \<and> key cc' = key cc2
      \<and> key_alloc cc' = key_alloc cc2 \<and> chainmode cc' = chainmode cc2 \<and> cipher cc' = cipher cc2
      \<and> (iv_gen_ops cc' \<noteq> None \<longrightarrow> iv_gen_ops cc' = iv_gen_ops cc2)"
  proof (cases "ocf_build env")
    case True
    let ?cc1 = "cc\<lparr>iv_gen_ops := ops,
        iv_size := (if cri_alg cc = Some CRYPTO_AES_CBC then 16 else 8)\<rparr>"
    from assms ch True obtain r msg where "iv_ctr env ?cc1 ivopts (iv_size ?cc1) = Some (r, msg, cc')"
      by (auto simp: crypt_ctr_iv_def Let_def split: option.splits if_splits)
    then show ?thesis by (rule that[OF _ _ _]) simp_all
  next
    case False
    let ?cc1 = "cc\<lparr>iv_gen_ops := ops\<rparr>"
    let ?sz = "case tfm cc of Some (_, n) \<Rightarrow> n | None \<Rightarrow> 0"
    from assms ch False obtain r msg cc2 where a: "iv_ctr env ?cc1 ivopts ?sz = Some (r, msg, cc2)"
      by (auto simp: crypt_ctr_iv_def Let_def split: option.splits if_splits)
    with assms ch False have "cc' = cc2\<lparr>iv_size := max ?sz 8\<rparr>
        \<or> cc' = cc2\<lparr>iv_size := 0, iv_gen_ops := None, essiv_tfm := None\<rparr>
        \<or> cc' = cc2\<lparr>iv_size := 0\<rparr>"
      by (auto simp: crypt_ctr_iv_def Let_def split: if_splits)
    then have p: "flags cc' = flags cc2 \<and> key_size cc' = key_size cc2 \<and> key cc' = key cc2
      \<and> key_alloc cc' = key_alloc cc2 \<and> chainmode cc' = chainmode cc2 \<and> cipher cc' = cipher cc2
      \<and> (iv_gen_ops cc' \<noteq> None \<longrightarrow> iv_gen_ops cc' = iv_gen_ops cc2)"
      by auto
    show ?thesis by (rule that[OF a _ p]) simp
  qed
  note k = iv_ctr_keeps[OF c]
  have "flags cc' = flags cc \<and> key_size cc' = key_size cc \<and> key cc' = key cc
    \<and> key_alloc cc' = key_alloc cc \<and> chainmode cc' = chainmode cc \<and> cipher cc' = cipher cc
    \<and> (iv_gen_ops cc' \<noteq> None \<longrightarrow> iv_gen_ops cc' = ops)"
    using res k c1 by simp
  then show "flags cc' = flags cc" "key_size cc' = key_size cc" "key cc' = key cc"
    "key_alloc cc' = key_alloc cc" "chainmode cc' = chainmode cc" "cipher cc' = cipher cc"
    "iv_gen_ops cc' \<noteq> None \<longrightarrow> choose_iv_ops (ocf_build env) ivmode = Inr (iv_gen_ops cc')"
    using ch by simp_all
qed

lemma finish_keeps:
  assumes "crypt_ctr_finish env argv ivmode ivopts cc = Inr cc'"
  shows "flags cc' = flags cc" "key_size cc' = key_size cc" "key cc' = key cc"
    "key_alloc cc' = key_alloc cc" "chainmode cc' = chainmode cc" "cipher cc' = cipher cc"
    "iv_gen_ops cc' = iv_gen_ops cc"
  using assms
  by (auto simp: crypt_ctr_finish_def Let_def split: if_splits option.splits)


lemma crypt_ctr_ok:
  assumes "crypt_ctr env argv = Ctr_ok cc"
    and "parse_cipher_spec (argv ! 0) = (ciph, cm0, im0, io, extra)"
  shows "\<exists>cc1. crypt_set_key (kzalloc_config (unat (drop_bit 1 (word_of_nat (length (argv ! 1)) :: u32))))
              (argv ! 1) = (0, cc1)
          \<and> flags cc = flags cc1 \<and> key_size cc = key_size cc1 \<and> key cc = key cc1
          \<and> key_alloc cc = key_alloc cc1"
    and "chainmode cc = fst (compat_defaults cm0 im0)"
    and "Some (cipher cc) = ciph"
    and "iv_gen_ops cc \<noteq> None \<longrightarrow>
           choose_iv_ops (ocf_build env) (snd (compat_defaults cm0 im0)) = Inr (iv_gen_ops cc)"
proof -
  let ?ksz = "drop_bit 1 (word_of_nat (length (argv ! 1)) :: u32)"
  obtain r cc1 where sk: "crypt_set_key (kzalloc_config (unat ?ksz)) (argv ! 1) = (r, cc1)"
    by force
  obtain cm ivmode where cd: "compat_defaults cm0 im0 = (cm, ivmode)" by force
  obtain c where c: "ciph = Some c"
    using assms(2) by (auto simp: parse_cipher_spec_def split: prod.splits)
  from assms sk cd c have r0: "r = 0"
    by (auto simp: crypt_ctr_def Let_def split: if_splits)
  from assms sk cd c r0 obtain cc2 where b: "crypt_ctr_backend env c cm cc1 = Inr cc2"
    by (auto simp: crypt_ctr_def Let_def split: if_splits sum.splits)
  from assms sk cd c r0 b obtain cc3 where i: "crypt_ctr_iv env ivmode io cc2 = Some (Inr cc3)"
    by (auto simp: crypt_ctr_def Let_def split: if_splits sum.splits option.splits)
  from assms sk cd c r0 b i have f: "crypt_ctr_finish env argv ivmode io cc3 = Inr cc"
    by (auto simp: crypt_ctr_def Let_def split: if_splits sum.splits option.splits)
  note kb = backend_keeps[OF b] and ki = ctr_iv_keeps[OF i] and kf = finish_keeps[OF f]
  show "\<exists>cc1. crypt_set_key (kzalloc_config (unat ?ksz)) (argv ! 1) = (0, cc1)
          \<and> flags cc = flags cc1 \<and> key_size cc = key_size cc1 \<and> key cc = key cc1
          \<and> key_alloc cc = key_alloc cc1"
    using sk r0 kb ki kf by simp
  show "chainmode cc = fst (compat_defaults cm0 im0)"
    using kb ki kf cd by simp
  show "Some (cipher cc) = ciph"
    using kb ki kf c by simp
  show "iv_gen_ops cc \<noteq> None \<longrightarrow>
           choose_iv_ops (ocf_build env) (snd (compat_defaults cm0 im0)) = Inr (iv_gen_ops cc)"
    using ki(7) kf(7) cd by simp
qed

lemma crypt_ctr_needs_ivmode:
  assumes "length argv = 5" "kzalloc_ok env"
    and "parse_cipher_spec (argv ! 0) = (ciph, cm0, im0, io, extra)"
    and "fst (compat_defaults cm0 im0) \<noteq> ''ecb''" "snd (compat_defaults cm0 im0) = None"
  shows "\<exists>msg. crypt_ctr env argv = Ctr_error (- EINVAL) msg"
  using assms
  by (auto simp: crypt_ctr_def Let_def split: prod.splits)


lemma ctr_config_Some: "ctr_config r = Some cc \<longleftrightarrow> r = Ctr_ok cc"
  by (cases r) auto

text \<open>
  Claim C8. With five arguments and the configuration allocated, \<open>crypt_ctr\<close> splits
  the cipher specification into cipher, chainmode, ivmode and ivopts and applies the
  defaults: when no chainmode is given, or the chainmode is \<open>plain\<close> and no ivmode is
  given, the chainmode becomes \<open>cbc\<close> and the ivmode \<open>plain\<close>; otherwise both stay as
  given. A target that is constructed carries the cipher and the chainmode so obtained, and
  its IV generator, when it has one, is the one the ivmode so obtained names. When after
  the defaults the chainmode is not \<open>ecb\<close> and there is no ivmode, construction fails
  with \<open>-EINVAL\<close>.
\<close>

theorem crypt_ctr_cipher_spec_defaults:
  assumes "length argv = 5" and "kzalloc_ok env"
    and "parse_cipher_spec (argv ! 0) = (ciph, cm0, im0, io, extra)"
  shows "(cm0 = None \<or> (cm0 = Some ''plain'' \<and> im0 = None) \<longrightarrow>
            compat_defaults cm0 im0 = (''cbc'', Some ''plain''))
    \<and> (\<forall>cm. cm0 = Some cm \<and> \<not> (cm = ''plain'' \<and> im0 = None) \<longrightarrow>
            compat_defaults cm0 im0 = (cm, im0))
    \<and> (\<forall>cc. crypt_ctr env argv = Ctr_ok cc \<longrightarrow>
            chainmode cc = fst (compat_defaults cm0 im0) \<and> Some (cipher cc) = ciph
            \<and> (iv_gen_ops cc \<noteq> None \<longrightarrow>
                 choose_iv_ops (ocf_build env) (snd (compat_defaults cm0 im0))
                   = Inr (iv_gen_ops cc)))
    \<and> (fst (compat_defaults cm0 im0) \<noteq> ''ecb'' \<and> snd (compat_defaults cm0 im0) = None \<longrightarrow>
            (\<exists>msg. crypt_ctr env argv = Ctr_error (- EINVAL) msg))"
proof (intro conjI allI impI)
  assume "cm0 = None \<or> (cm0 = Some ''plain'' \<and> im0 = None)"
  then show "compat_defaults cm0 im0 = (''cbc'', Some ''plain'')"
    by (auto simp: compat_defaults_def)
next
  fix cm assume "cm0 = Some cm \<and> \<not> (cm = ''plain'' \<and> im0 = None)"
  then show "compat_defaults cm0 im0 = (cm, im0)"
    by (auto simp: compat_defaults_def)
next
  fix cc assume ok: "crypt_ctr env argv = Ctr_ok cc"
  show "chainmode cc = fst (compat_defaults cm0 im0)"
    by (rule crypt_ctr_ok(2)[OF ok assms(3)])
  show "Some (cipher cc) = ciph"
    by (rule crypt_ctr_ok(3)[OF ok assms(3)])
  assume "iv_gen_ops cc \<noteq> None"
  then show "choose_iv_ops (ocf_build env) (snd (compat_defaults cm0 im0)) = Inr (iv_gen_ops cc)"
    using crypt_ctr_ok(4)[OF ok assms(3)] by simp
next
  assume "fst (compat_defaults cm0 im0) \<noteq> ''ecb'' \<and> snd (compat_defaults cm0 im0) = None"
  then show "\<exists>msg. crypt_ctr env argv = Ctr_error (- EINVAL) msg"
    using crypt_ctr_needs_ivmode[OF assms] by simp
qed

theorem crypt_ctr_cipher_spec_defaults_witness:
  "length (example_argv ''aes'' ''-'') = 5 \<and> kzalloc_ok (example_ctr_env False)
   \<and> parse_cipher_spec (example_argv ''aes'' ''-'' ! 0) = (Some ''aes'', None, None, None, None)
   \<and> parse_cipher_spec (example_argv ''aes-cbc'' ''-'' ! 0)
       = (Some ''aes'', Some ''cbc'', None, None, None)
   \<and> compat_defaults None None = (''cbc'', Some ''plain'')
   \<and> map_option (\<lambda>cc. (cipher cc, chainmode cc, iv_gen_ops cc, iv_mode cc))
        (ctr_config (crypt_ctr (example_ctr_env False) (example_argv ''aes'' ''-'')))
       = Some (''aes'', ''cbc'', Some Plain_ops, Some ''plain'')
   \<and> (\<exists>msg. crypt_ctr (example_ctr_env False) (example_argv ''aes-cbc'' ''-'')
          = Ctr_error (- EINVAL) msg)"
proof -
  have h: "length (example_argv ''aes'' ''-'') = 5" "kzalloc_ok (example_ctr_env False)"
    "length (example_argv ''aes-cbc'' ''-'') = 5"
    by (simp_all add: example_argv_def example_ctr_env_def)
  have p1: "parse_cipher_spec (example_argv ''aes'' ''-'' ! 0) = (Some ''aes'', None, None, None, None)"
    and p2: "parse_cipher_spec (example_argv ''aes-cbc'' ''-'' ! 0)
       = (Some ''aes'', Some ''cbc'', None, None, None)"
    by code_simp+
  have e: "map_option (\<lambda>cc. (cipher cc, chainmode cc, iv_gen_ops cc, iv_mode cc))
        (ctr_config (crypt_ctr (example_ctr_env False) (example_argv ''aes'' ''-'')))
       = Some (''aes'', ''cbc'', Some Plain_ops, Some ''plain'')"
    by code_simp
  note t1 = crypt_ctr_cipher_spec_defaults[OF h(1,2) p1]
  note t2 = crypt_ctr_cipher_spec_defaults[OF h(3,2) p2]
  have d1: "compat_defaults None None = (''cbc'', Some ''plain'')"
    using t1[THEN conjunct1] by simp
  have "compat_defaults (Some ''cbc'') None = (''cbc'', None)"
    using t2[THEN conjunct2, THEN conjunct1] by simp
  then have x: "\<exists>msg. crypt_ctr (example_ctr_env False) (example_argv ''aes-cbc'' ''-'')
          = Ctr_error (- EINVAL) msg"
    using t2[THEN conjunct2, THEN conjunct2, THEN conjunct2] by simp
  show ?thesis by (intro conjI h(1,2) p1 p2 d1 e x)
qed

text \<open>
  Claim C10. \<open>crypt_set_key\<close> with the no-key string \<open>-\<close> on a configuration without
  key returns 0 and sets the key-valid bit, storing the key size 0 and no key byte. So a
  target constructed with \<open>-\<close> as key has the key-valid bit set, a key size of 0, no
  room reserved for a key and an all-zero key area, and \<open>crypt_preresume\<close> returns 0 for
  it.
\<close>

theorem crypt_ctr_no_key_is_valid:
  "(key_size cc0 = 0 \<longrightarrow>
      crypt_set_key cc0 ''-''
        = (0, cc0\<lparr>key_size := 0, flags := set_bit_ul DM_CRYPT_KEY_VALID (flags cc0)\<rparr>))
   \<and> (\<forall>cc. crypt_ctr env argv = Ctr_ok cc \<and> argv ! 1 = ''-'' \<longrightarrow>
         test_bit_ul DM_CRYPT_KEY_VALID (flags cc) \<and> key_size cc = 0 \<and> key_alloc cc = 0
         \<and> (\<forall>i. key cc i = 0) \<and> crypt_preresume cc = 0)"
proof (intro conjI allI impI)
  assume "key_size cc0 = 0"
  then show "crypt_set_key cc0 ''-''
        = (0, cc0\<lparr>key_size := 0, flags := set_bit_ul DM_CRYPT_KEY_VALID (flags cc0)\<rparr>)"
    by (rule set_key_dash)
next
  fix cc assume a: "crypt_ctr env argv = Ctr_ok cc \<and> argv ! 1 = ''-''"
  obtain ciph cm0 im0 io extra where p: "parse_cipher_spec (argv ! 0) = (ciph, cm0, im0, io, extra)"
    by (cases "parse_cipher_spec (argv ! 0)") auto
  have z: "unat (drop_bit 1 (word_of_nat (length (argv ! 1)) :: u32)) = 0"
    using a by simp
  from crypt_ctr_ok(1)[OF a[THEN conjunct1] p] obtain cc1 where
    s: "crypt_set_key (kzalloc_config 0) ''-'' = (0, cc1)"
    and k: "flags cc = flags cc1" "key_size cc = key_size cc1" "key cc = key cc1"
      "key_alloc cc = key_alloc cc1"
    unfolding z using a by auto
  have "key_size (kzalloc_config 0) = 0" by (simp add: kzalloc_config_def)
  from set_key_dash[OF this] s have cc1: "cc1 = (kzalloc_config 0)
      \<lparr>key_size := 0, flags := set_bit_ul DM_CRYPT_KEY_VALID (flags (kzalloc_config 0))\<rparr>"
    by simp
  have v: "test_bit_ul DM_CRYPT_KEY_VALID (flags cc)"
    unfolding k cc1 by (simp add: test_bit_ul_iff bit_set_bit_ul DM_CRYPT_KEY_VALID_def)
  show "test_bit_ul DM_CRYPT_KEY_VALID (flags cc)" by (rule v)
  show "key_size cc = 0" unfolding k cc1 by simp
  show "key_alloc cc = 0" unfolding k cc1 by (simp add: kzalloc_config_def)
  show "key cc i = 0" for i unfolding k cc1 by (simp add: kzalloc_config_def)
  show "crypt_preresume cc = 0" using v by (simp add: crypt_preresume_def)
qed

theorem crypt_ctr_no_key_is_valid_witness:
  "example_argv ''aes'' ''-'' ! 1 = ''-''
   \<and> (\<exists>cc. crypt_ctr (example_ctr_env True) (example_argv ''aes-cbc-plain'' ''-'') = Ctr_ok cc
          \<and> test_bit_ul DM_CRYPT_KEY_VALID (flags cc) \<and> key_size cc = 0 \<and> key_alloc cc = 0
          \<and> crypt_preresume cc = 0)
   \<and> map_option (\<lambda>cc. (key_size cc, flags cc, crypt_preresume cc))
        (ctr_config (crypt_ctr (example_ctr_env False) (example_argv ''aes'' ''-'')))
       = Some (0, 2, 0)"
proof -
  have a1: "example_argv ''aes-cbc-plain'' ''-'' ! 1 = ''-''" "example_argv ''aes'' ''-'' ! 1 = ''-''"
    by (simp_all add: example_argv_def)
  have "map_option (\<lambda>cc. key_size cc)
        (ctr_config (crypt_ctr (example_ctr_env True) (example_argv ''aes-cbc-plain'' ''-'')))
       = Some 0"
    by code_simp
  then obtain cc where ok: "crypt_ctr (example_ctr_env True) (example_argv ''aes-cbc-plain'' ''-'') = Ctr_ok cc"
    by (auto simp: ctr_config_Some)
  from crypt_ctr_no_key_is_valid[of "kzalloc_config 0" "example_ctr_env True"
      "example_argv ''aes-cbc-plain'' ''-''", THEN conjunct2] ok a1(1)
  have "test_bit_ul DM_CRYPT_KEY_VALID (flags cc) \<and> key_size cc = 0 \<and> key_alloc cc = 0
          \<and> crypt_preresume cc = 0"
    by blast
  with ok have x: "\<exists>cc. crypt_ctr (example_ctr_env True) (example_argv ''aes-cbc-plain'' ''-'') = Ctr_ok cc
          \<and> test_bit_ul DM_CRYPT_KEY_VALID (flags cc) \<and> key_size cc = 0 \<and> key_alloc cc = 0
          \<and> crypt_preresume cc = 0"
    by blast
  have e: "map_option (\<lambda>cc. (key_size cc, flags cc, crypt_preresume cc))
        (ctr_config (crypt_ctr (example_ctr_env False) (example_argv ''aes'' ''-'')))
       = Some (0, 2, 0)"
    by code_simp
  show ?thesis by (intro conjI a1(2) x e)
qed


end
